theory Spec2Isabelle
  imports Main
begin

section \<open>Shared types (src/server/types.ts)\<close>

text \<open>
  JavaScript strings are modelled as \<open>string\<close>, one \<open>char\<close> per UTF-16 code unit, so
  that \<open>length\<close> is the source's \<open>.length\<close>. JavaScript numbers that count things are
  \<open>nat\<close>, time stamps and durations are \<open>int\<close>. A \<open>Record<string, number>\<close> is an
  association list in insertion order.
\<close>

record PassageMeta =
  meta_type :: "string option"
  meta_subtype :: "string option"
  pageNumber :: "int option"
  position :: "int option"
  sourceUrl :: "string option"

record Passage =
  passage_id :: string
  content :: string
  meta :: PassageMeta

text \<open>
  The breakdowns are declared as \<open>Record<string, number>\<close> and are counted into a plain
  object \<open>{}\<close>, which inherits from \<open>Object.prototype\<close>. For a key that is the name of
  an inherited member the first \<open>byType[k] || 0\<close> reads the member, and what is stored is
  the text of the member followed by the character \<open>1\<close>, one more \<open>1\<close> with each further
  count. \<open>InheritedText k n\<close> is the text of the member \<open>k\<close> followed by \<open>n\<close> times
  \<open>1\<close>; the layout of the text of a built-in function is the engine's.
\<close>

datatype tally = Count nat | InheritedText string nat

record MetaBreakdown =
  byType :: "(string \<times> tally) list"
  bySubtype :: "(string \<times> tally) list"
  pageCount :: nat

text \<open>
  \<open>MethodResult\<close>. The interface declares \<open>processingTimeMs\<close>, \<open>passageCount\<close>,
  \<open>contentCharsTotal\<close> and \<open>metaBreakdown\<close> as required, but a stored method object can
  lose them: \<open>updateMethodInHistory\<close> spreads an update whose values may be
  \<open>undefined\<close> over it and \<open>JSON.stringify\<close> drops such keys. They are options here,
  \<open>None\<close> meaning that the key is absent. \<open>method_startedAt\<close> is the extra
  \<open>startedAt\<close> key that \<open>createPendingEntry\<close> adds to each method; \<open>status\<close> is a
  plain string because the pending statuses are stored through \<open>as any\<close>;
  \<open>method_name\<close> is the key \<open>method\<close>.
\<close>

record MethodResult =
  method_name :: string
  label :: string
  fileId :: string
  status :: string
  failedReason :: "string option"
  processingTimeMs :: "int option"
  passageCount :: "nat option"
  contentCharsTotal :: "nat option"
  metaBreakdown :: "MetaBreakdown option"
  sampleText :: string
  costOrUsageRaw :: "string option"
  method_startedAt :: "string option"

record OriginalFile =
  file_name :: string
  file_size :: nat
  file_contentType :: string

record RankingItem =
  rank_method :: string
  rank :: int
  score :: "int option"

record AiComparisonResult =
  ai_runId :: string
  generatedAt :: string
  ranking :: "RankingItem list"
  summary :: string
  perMethodNotes :: "(string \<times> string) list"
  recommendedMethod :: string

record BenchmarkRunResult =
  runId :: string
  startedAt :: string
  completedAt :: string
  originalFile :: OriginalFile
  methods :: "MethodResult list"

section \<open>Run history store (src/lib/history.ts)\<close>

record HistoryEntry = BenchmarkRunResult +
  aiComparison :: "AiComparisonResult option"

definition MAX_HISTORY_ITEMS :: nat where
  "MAX_HISTORY_ITEMS = 25"

text \<open>
  The text kept under the storage key is seen through \<open>JSON.parse\<close>: it is the empty
  string, a text that \<open>JSON.parse\<close> rejects with a SyntaxError, or a text that parses.
  A text that parses holds an array of history entries or a JSON value of another kind;
  \<open>getHistory\<close> casts it to \<open>HistoryEntry[]\<close> without looking. Arrays whose elements
  are not history entries are outside this model. The text that \<open>JSON.stringify\<close> makes
  of an array of entries parses back to it, and \<open>setItem\<close> is taken to succeed.
\<close>

datatype json_other = JNull | JBool bool | JNumber int | JString string | JObject

datatype parsed = NotArray json_other | Entries "HistoryEntry list"

datatype json_text = EmptyString | InvalidJson | ValidJson parsed

type_synonym localStorage = "json_text option"

text \<open>
  A thrown value is an instance of \<open>Error\<close> with its message, or any other value with
  the text \<open>String(value)\<close>. The store functions can only meet the TypeError of calling
  an array method on a value that is not an array.
\<close>

datatype js_error = Error string | Thrown string

datatype type_error = TypeError

definition setItem :: "HistoryEntry list \<Rightarrow> localStorage" where
  "setItem h = Some (ValidJson (Entries h))"

definition getHistory :: "localStorage \<Rightarrow> parsed" where
  "getHistory ls =
     (case ls of
        None \<Rightarrow> Entries []
      | Some EmptyString \<Rightarrow> Entries []
      | Some InvalidJson \<Rightarrow> Entries []
      | Some (ValidJson v) \<Rightarrow> v)"

text \<open>
  \<open>getRunById\<close> has no try block: \<open>history.find\<close> on a value that is not an array
  throws a TypeError.
\<close>

definition getRunById :: "string \<Rightarrow> localStorage \<Rightarrow> type_error + HistoryEntry option" where
  "getRunById rid ls =
     (case getHistory ls of
        NotArray v \<Rightarrow> Inl TypeError
      | Entries history \<Rightarrow> Inr (find (\<lambda>h. runId h = rid) history))"

definition toEntry :: "BenchmarkRunResult \<Rightarrow> HistoryEntry" where
  "toEntry result =
     \<lparr>runId = runId result, startedAt = startedAt result, completedAt = completedAt result,
      originalFile = originalFile result, methods = methods result, aiComparison = None\<rparr>"

text \<open>
  The writers run inside \<open>try\<close>: the TypeError of \<open>history.filter\<close> on a value that is
  not an array is caught and logged, and the store is left as it was.
\<close>

definition addToHistory :: "BenchmarkRunResult \<Rightarrow> localStorage \<Rightarrow> localStorage" where
  "addToHistory result ls =
     (case getHistory ls of
        NotArray v \<Rightarrow> ls
      | Entries history \<Rightarrow>
          (let entry = toEntry result;
               filtered = filter (\<lambda>h. runId h \<noteq> runId entry) history;
               updated = take MAX_HISTORY_ITEMS (entry # filtered)
           in setItem updated))"

fun findIndex :: "('a \<Rightarrow> bool) \<Rightarrow> 'a list \<Rightarrow> nat option" where
  "findIndex P [] = None"
| "findIndex P (x # xs) = (if P x then Some 0 else map_option Suc (findIndex P xs))"

definition updateHistoryWithAiComparison ::
  "string \<Rightarrow> AiComparisonResult \<Rightarrow> localStorage \<Rightarrow> localStorage" where
  "updateHistoryWithAiComparison rid ai ls =
     (case getHistory ls of
        NotArray v \<Rightarrow> ls
      | Entries history \<Rightarrow>
          (case findIndex (\<lambda>h. runId h = rid) history of
             None \<Rightarrow> ls
           | Some index \<Rightarrow>
               setItem (history[index := (history ! index)\<lparr>aiComparison := Some ai\<rparr>])))"

record PendingMethod =
  pm_method :: string
  pm_label :: string
  pm_fileId :: string
  pm_status :: string
  pm_startedAt :: string

record PendingHistoryEntry =
  pe_runId :: string
  pe_startedAt :: string
  pe_originalFile :: OriginalFile
  pe_methods :: "PendingMethod list"

definition pendingMethodResult :: "PendingMethod \<Rightarrow> MethodResult" where
  "pendingMethodResult m =
     \<lparr>method_name = pm_method m, label = pm_label m, fileId = pm_fileId m, status = pm_status m,
      failedReason = None, processingTimeMs = Some 0, passageCount = Some 0,
      contentCharsTotal = Some 0,
      metaBreakdown = Some \<lparr>byType = [], bySubtype = [], pageCount = 0\<rparr>,
      sampleText = [], costOrUsageRaw = None, method_startedAt = Some (pm_startedAt m)\<rparr>"

definition pendingHistoryEntry :: "PendingHistoryEntry \<Rightarrow> HistoryEntry" where
  "pendingHistoryEntry entry =
     \<lparr>runId = pe_runId entry, startedAt = pe_startedAt entry, completedAt = [],
      originalFile = pe_originalFile entry,
      methods = map pendingMethodResult (pe_methods entry), aiComparison = None\<rparr>"

definition createPendingEntry :: "PendingHistoryEntry \<Rightarrow> localStorage \<Rightarrow> localStorage" where
  "createPendingEntry entry ls =
     (case getHistory ls of
        NotArray v \<Rightarrow> ls
      | Entries history \<Rightarrow>
          (let historyEntry = pendingHistoryEntry entry;
               filtered = filter (\<lambda>h. runId h \<noteq> pe_runId entry) history;
               updated = take MAX_HISTORY_ITEMS (historyEntry # filtered)
           in setItem updated))"

text \<open>
  The update of \<open>updateMethodInHistory\<close> is a \<open>Partial<MethodResult> & {status: string}\<close>;
  the keys are those that the two callers in \<open>pollMethodStatus\<close> pass. A key of the
  update is absent, or present with a value that may be \<open>undefined\<close>; the object spread
  copies every present key, also one whose value is \<open>undefined\<close>.
\<close>

datatype 'a upd = Absent | Present "'a option"

fun spread :: "'a option \<Rightarrow> 'a upd \<Rightarrow> 'a option" where
  "spread old Absent = old"
| "spread old (Present v) = v"

record MethodUpdate =
  u_status :: string
  u_failedReason :: "string upd"
  u_passageCount :: "nat upd"
  u_contentCharsTotal :: "nat upd"
  u_processingTimeMs :: "int upd"
  u_metaBreakdown :: "MetaBreakdown upd"

definition mergeMethod :: "MethodResult \<Rightarrow> MethodUpdate \<Rightarrow> MethodResult" where
  "mergeMethod m u =
     m\<lparr>status := u_status u,
       failedReason := spread (failedReason m) (u_failedReason u),
       passageCount := spread (passageCount m) (u_passageCount u),
       contentCharsTotal := spread (contentCharsTotal m) (u_contentCharsTotal u),
       processingTimeMs := spread (processingTimeMs m) (u_processingTimeMs u),
       metaBreakdown := spread (metaBreakdown m) (u_metaBreakdown u)\<rparr>"

definition isComplete :: "MethodResult \<Rightarrow> bool" where
  "isComplete m \<longleftrightarrow>
     status m = ''indexing_completed'' \<or> status m = ''indexing_failed'' \<or>
     status m = ''upload_failed'' \<or> status m = ''timeout''"

text \<open>
  \<open>now\<close> is the text of \<open>new Date().toISOString()\<close> at the moment of the call.
\<close>

definition updateEntry :: "string \<Rightarrow> MethodUpdate \<Rightarrow> string \<Rightarrow> HistoryEntry \<Rightarrow> HistoryEntry option" where
  "updateEntry methodName update now h =
     (case findIndex (\<lambda>m. method_name m = methodName) (methods h) of
        None \<Rightarrow> None
      | Some methodIndex \<Rightarrow>
          (let ms = (methods h)[methodIndex := mergeMethod (methods h ! methodIndex) update];
               allComplete = list_all isComplete ms
           in Some (h\<lparr>methods := ms,
                      completedAt := (if allComplete \<and> completedAt h = [] then now
                                      else completedAt h)\<rparr>)))"

definition updateMethodInHistory ::
  "string \<Rightarrow> string \<Rightarrow> MethodUpdate \<Rightarrow> string \<Rightarrow> localStorage \<Rightarrow> localStorage" where
  "updateMethodInHistory rid methodName update now ls =
     (case getHistory ls of
        NotArray v \<Rightarrow> ls
      | Entries history \<Rightarrow>
          (case findIndex (\<lambda>h. runId h = rid) history of
             None \<Rightarrow> ls
           | Some index \<Rightarrow>
               (case updateEntry methodName update now (history ! index) of
                  None \<Rightarrow> ls
                | Some h' \<Rightarrow> setItem (history[index := h']))))"

definition clearHistory :: "localStorage \<Rightarrow> localStorage" where
  "clearHistory ls = None"

text \<open>
  \<open>exportHistory\<close> returns the text \<open>JSON.stringify(getHistory(), null, 2)\<close>, which
  parses to the value \<open>getHistory\<close> returned.
\<close>

definition exportHistory :: "localStorage \<Rightarrow> json_text" where
  "exportHistory ls = ValidJson (getHistory ls)"

text \<open>
  Validation of an imported entry: \<open>!entry.runId\<close> rejects the empty run id;
  \<open>originalFile\<close> is an object and \<open>methods\<close> an array in every \<open>HistoryEntry\<close>.
\<close>

definition validEntry :: "HistoryEntry \<Rightarrow> bool" where
  "validEntry entry \<longleftrightarrow> runId entry \<noteq> []"

definition importHistory :: "json_text \<Rightarrow> localStorage \<Rightarrow> bool \<times> localStorage" where
  "importHistory json ls =
     (case json of
        EmptyString \<Rightarrow> (False, ls)
      | InvalidJson \<Rightarrow> (False, ls)
      | ValidJson (NotArray v) \<Rightarrow> (False, ls)
      | ValidJson (Entries parsed) \<Rightarrow>
          (if \<not> list_all validEntry parsed then (False, ls)
           else
             (case getHistory ls of
                NotArray v \<Rightarrow> (False, ls)
              | Entries existing \<Rightarrow>
                  (let existingIds = set (map runId existing);
                       newEntries = filter (\<lambda>h. runId h \<notin> existingIds) parsed;
                       merged = take MAX_HISTORY_ITEMS (newEntries @ existing)
                   in (True, setItem merged)))))"

record MethodSummary =
  ms_method :: string
  ms_label :: string
  ms_status :: string

record HistorySummary =
  hs_runId :: string
  hs_fileName :: string
  hs_fileSize :: nat
  hs_startedAt :: string
  hs_methods :: "MethodSummary list"
  hasAiComparison :: bool

definition summarize :: "HistoryEntry \<Rightarrow> HistorySummary" where
  "summarize h =
     \<lparr>hs_runId = runId h, hs_fileName = file_name (originalFile h),
      hs_fileSize = file_size (originalFile h), hs_startedAt = startedAt h,
      hs_methods = map (\<lambda>m. \<lparr>ms_method = method_name m, ms_label = label m, ms_status = status m\<rparr>)
                     (methods h),
      hasAiComparison = (aiComparison h \<noteq> None)\<rparr>"

definition getHistorySummaries :: "localStorage \<Rightarrow> type_error + HistorySummary list" where
  "getHistorySummaries ls =
     (case getHistory ls of
        NotArray v \<Rightarrow> Inl TypeError
      | Entries history \<Rightarrow> Inr (map summarize history))"

section \<open>Method runner (src/server/benchmark.ts)\<close>

datatype Config = EmptyConfig | VisionTranscribePages | ParsingModeAgent

record MethodConfig =
  mc_name :: string
  mc_label :: string
  mc_config :: Config

definition METHODS :: "MethodConfig list" where
  "METHODS =
     [\<lparr>mc_name = ''basic'', mc_label = ''Basic'', mc_config = EmptyConfig\<rparr>,
      \<lparr>mc_name = ''vision'', mc_label = ''Vision'', mc_config = VisionTranscribePages\<rparr>,
      \<lparr>mc_name = ''landing-ai'', mc_label = ''Landing AI'', mc_config = ParsingModeAgent\<rparr>]"

definition POLL_INTERVAL_MS :: nat where
  "POLL_INTERVAL_MS = 2000"

definition MAX_POLL_ATTEMPTS :: nat where
  "MAX_POLL_ATTEMPTS = 150"

subsection \<open>The remote service and the clock\<close>

text \<open>
  The file object of the Files API, as far as the code reads it (through \<open>as any\<close>):
  every property but \<open>id\<close> and \<open>status\<close> may be missing.
\<close>

record RemoteFile =
  rf_id :: string
  rf_status :: string
  rf_uploadUrl :: "string option"
  rf_failedStatusReason :: "string option"
  rf_usage :: "string option"

record RemotePassage =
  rp_id :: string
  rp_content :: string
  rp_meta :: "PassageMeta option"

record ListResult =
  lr_passages :: "RemotePassage list"
  lr_nextToken :: "string option"

text \<open>
  The key \<open>benchmark-${method.name}-${Date.now()}-${fileName}\<close>, kept as its three
  parts.
\<close>

datatype FileKey = BenchmarkKey string int string

record UpsertRequest =
  up_key :: FileKey
  up_size :: nat
  up_index :: bool
  up_contentType :: string
  up_configuration :: Config

text \<open>
  Everything outside the process is a world \<open>'w\<close> that each awaited call reads and
  changes: the Botpress client (\<open>upsertFile\<close>, \<open>getFile\<close>, \<open>listFilePassages\<close>), the
  global \<open>fetch\<close> used for the upload (\<open>PUT\<close> of the buffer to the upload URL), the
  timer behind \<open>sleep\<close> and the clock (\<open>Date.now()\<close>, \<open>toISOString\<close>, \<open>new
  Date(text).getTime()\<close>, which is \<open>None\<close> for \<open>NaN\<close>). A call returns its result or
  what it throws.
\<close>

record 'w Client =
  upsertFile :: "UpsertRequest \<Rightarrow> 'w \<Rightarrow> (js_error + RemoteFile) \<times> 'w"
  getFile :: "string \<Rightarrow> 'w \<Rightarrow> (js_error + RemoteFile) \<times> 'w"
  listFilePassages :: "string \<Rightarrow> nat \<Rightarrow> string option \<Rightarrow> 'w \<Rightarrow> (js_error + ListResult) \<times> 'w"
  fetchPut :: "string \<Rightarrow> string \<Rightarrow> nat list \<Rightarrow> 'w \<Rightarrow> (js_error + unit) \<times> 'w"
  sleep :: "nat \<Rightarrow> 'w \<Rightarrow> 'w"
  dateNow :: "'w \<Rightarrow> int"
  toISOString :: "int \<Rightarrow> string"
  getTime :: "string \<Rightarrow> int option"

text \<open>A string that may be missing is truthy when it is there and not empty.\<close>

fun truthy :: "string option \<Rightarrow> bool" where
  "truthy None = False"
| "truthy (Some s) = (s \<noteq> [])"

text \<open>\<open>v || d\<close>\<close>

definition orElse :: "string option \<Rightarrow> string \<Rightarrow> string" where
  "orElse v d = (case v of None \<Rightarrow> d | Some s \<Rightarrow> if s = [] then d else s)"

subsection \<open>Text clean-up\<close>

abbreviation LF :: char where "LF \<equiv> CHR 0x0A"
abbreviation CR :: char where "CR \<equiv> CHR 0x0D"
abbreviation TAB :: char where "TAB \<equiv> CHR 0x09"

text \<open>\<open>.replace(/\r\n/g, '\n')\<close>\<close>

fun replaceCRLF :: "string \<Rightarrow> string" where
  "replaceCRLF [] = []"
| "replaceCRLF [c] = [c]"
| "replaceCRLF (c # d # s) =
     (if c = CR \<and> d = LF then LF # replaceCRLF s else c # replaceCRLF (d # s))"

text \<open>\<open>.replace(/\t/g, '  ')\<close>\<close>

fun replaceTabs :: "string \<Rightarrow> string" where
  "replaceTabs [] = []"
| "replaceTabs (c # s) = (if c = TAB then CHR '' '' # CHR '' '' # replaceTabs s else c # replaceTabs s)"

text \<open>\<open>.replace(/\n{3,}/g, '\n\n')\<close>: a maximal run of three or more line feeds becomes two.\<close>

function collapseNewlines :: "string \<Rightarrow> string" where
  "collapseNewlines [] = []"
| "collapseNewlines (c # s) =
     (if c = LF then
        (let run = takeWhile (\<lambda>d. d = LF) s; rest = dropWhile (\<lambda>d. d = LF) s
         in (if length run \<ge> 2 then [LF, LF] else c # run) @ collapseNewlines rest)
      else c # collapseNewlines s)"
  by pat_completeness auto
termination
  by (relation "measure length") (auto simp: length_dropWhile_le less_Suc_eq_le)

text \<open>
  White space of \<open>String.prototype.trim\<close>, as far as a \<open>char\<close> can tell: space, tab,
  line feed, vertical tab, form feed, carriage return and the no-break space.
\<close>

definition isSpace :: "char \<Rightarrow> bool" where
  "isSpace c \<longleftrightarrow> c \<in> {CHR '' '', TAB, LF, CHR 0x0B, CHR 0x0C, CR, CHR 0xA0}"

definition trim :: "string \<Rightarrow> string" where
  "trim s = rev (dropWhile isSpace (rev (dropWhile isSpace s)))"

definition beautifyText :: "string \<Rightarrow> string" where
  "beautifyText text = trim (collapseNewlines (replaceTabs (replaceCRLF text)))"

subsection \<open>Passages\<close>

definition emptyMeta :: PassageMeta where
  "emptyMeta = \<lparr>meta_type = None, meta_subtype = None, pageNumber = None, position = None,
                 sourceUrl = None\<rparr>"

definition toPassage :: "RemotePassage \<Rightarrow> Passage" where
  "toPassage p =
     \<lparr>passage_id = rp_id p, content = beautifyText (rp_content p),
      meta = (case rp_meta p of None \<Rightarrow> emptyMeta | Some m \<Rightarrow> m)\<rparr>"

text \<open>
  The \<open>do ... while (nextToken)\<close> loop of \<open>getAllPassages\<close> runs for as long as the
  service hands out a next token; when it never stops the value is \<open>None\<close>.
\<close>

partial_function (option) getAllPassagesLoop ::
  "'w Client \<Rightarrow> string \<Rightarrow> nat \<Rightarrow> Passage list \<Rightarrow> string option \<Rightarrow> 'w \<Rightarrow>
   ((js_error + Passage list) \<times> 'w) option" where
  "getAllPassagesLoop client fid limit allPassages nextToken w =
     (case listFilePassages client fid limit nextToken w of
        (Inl e, w') \<Rightarrow> Some (Inl e, w')
      | (Inr result, w') \<Rightarrow>
          (if truthy (lr_nextToken result)
           then getAllPassagesLoop client fid limit
                  (allPassages @ map toPassage (lr_passages result)) (lr_nextToken result) w'
           else Some (Inr (allPassages @ map toPassage (lr_passages result)), w')))"

definition getAllPassages ::
  "'w Client \<Rightarrow> string \<Rightarrow> 'w \<Rightarrow> ((js_error + Passage list) \<times> 'w) option" where
  "getAllPassages client fid w = getAllPassagesLoop client fid 200 [] None w"

subsection \<open>Metrics\<close>

text \<open>
  \<open>byType[k] = (byType[k] || 0) + 1\<close> on an object that started as \<open>{}\<close>. An own key
  is counted up. A new key goes to the end, with the count 1, unless it names a member of
  \<open>Object.prototype\<close>: then the inherited member is read, it is truthy, and the sum with 1
  is a text. The key \<open>__proto__\<close> is an accessor whose setter ignores a text, so that this
  key is never stored. The text is kept as \<open>InheritedText k n\<close>: what the member \<open>k\<close> of
  \<open>Object.prototype\<close> reads as, followed by \<open>n\<close> digits \<open>1\<close>. The object is a list of keys
  and what they hold; the statements read it as a map, and the order of its keys (where
  JavaScript puts names that are array indices first) plays no part in them.
\<close>

definition objectPrototypeNames :: "string list" where
  "objectPrototypeNames =
     [''constructor'', ''__defineGetter__'', ''__defineSetter__'', ''hasOwnProperty'',
      ''__lookupGetter__'', ''__lookupSetter__'', ''isPrototypeOf'', ''propertyIsEnumerable'',
      ''toString'', ''valueOf'', ''toLocaleString'']"

fun plusOne :: "tally \<Rightarrow> tally" where
  "plusOne (Count n) = Count (n + 1)"
| "plusOne (InheritedText k n) = InheritedText k (n + 1)"

definition firstTally :: "string \<Rightarrow> tally" where
  "firstTally k = (if k \<in> set objectPrototypeNames then InheritedText k 1 else Count 1)"

fun bumpOwn :: "string \<Rightarrow> (string \<times> tally) list \<Rightarrow> (string \<times> tally) list" where
  "bumpOwn k [] = [(k, firstTally k)]"
| "bumpOwn k ((k', v) # m) = (if k' = k then (k', plusOne v) # m else (k', v) # bumpOwn k m)"

definition bump :: "string \<Rightarrow> (string \<times> tally) list \<Rightarrow> (string \<times> tally) list" where
  "bump k m = (if k = ''__proto__'' then m else bumpOwn k m)"

record Counters =
  c_byType :: "(string \<times> tally) list"
  c_bySubtype :: "(string \<times> tally) list"
  c_pageNumbers :: "int set"

definition countPassage :: "Counters \<Rightarrow> Passage \<Rightarrow> Counters" where
  "countPassage c p =
     c\<lparr>c_byType :=
         (case meta_type (meta p) of
            None \<Rightarrow> c_byType c
          | Some t \<Rightarrow> if t = [] then c_byType c else bump t (c_byType c)),
       c_bySubtype :=
         (case meta_subtype (meta p) of
            None \<Rightarrow> c_bySubtype c
          | Some t \<Rightarrow> if t = [] then c_bySubtype c else bump t (c_bySubtype c)),
       c_pageNumbers :=
         (case pageNumber (meta p) of
            None \<Rightarrow> c_pageNumbers c
          | Some n \<Rightarrow> insert n (c_pageNumbers c))\<rparr>"

definition countPassages :: "Passage list \<Rightarrow> Counters" where
  "countPassages passages =
     foldl countPassage \<lparr>c_byType = [], c_bySubtype = [], c_pageNumbers = {}\<rparr> passages"

definition computeContentCharsTotal :: "Passage list \<Rightarrow> nat" where
  "computeContentCharsTotal passages = foldl (\<lambda>sum p. sum + length (content p)) 0 passages"

definition computeMetaBreakdown :: "Passage list \<Rightarrow> MetaBreakdown" where
  "computeMetaBreakdown passages =
     (let c = countPassages passages
      in \<lparr>byType = c_byType c, bySubtype = c_bySubtype c, pageCount = card (c_pageNumbers c)\<rparr>)"

fun join :: "string \<Rightarrow> string list \<Rightarrow> string" where
  "join sep [] = []"
| "join sep [x] = x"
| "join sep (x # y # xs) = x @ sep @ join sep (y # xs)"

definition computeSampleText :: "Passage list \<Rightarrow> string" where
  "computeSampleText passages =
     take 2000 (join [LF, LF, CHR ''-'', CHR ''-'', CHR ''-'', LF, LF] (map content (take 3 passages)))"

subsection \<open>benchmarkMethod\<close>

definition isPending :: "string \<Rightarrow> bool" where
  "isPending st \<longleftrightarrow> st = ''upload_pending'' \<or> st = ''indexing_pending''"

text \<open>
  The polling loop: the result is the last file object and the number of attempts made,
  or the value that \<open>getFile\<close> threw.
\<close>

function pollLoop ::
  "'w Client \<Rightarrow> string \<Rightarrow> RemoteFile \<Rightarrow> nat \<Rightarrow> 'w \<Rightarrow> (js_error + RemoteFile \<times> nat) \<times> 'w" where
  "pollLoop client fid finalFile attempts w =
     (if isPending (rf_status finalFile) \<and> attempts < MAX_POLL_ATTEMPTS then
        (case getFile client fid (sleep client POLL_INTERVAL_MS w) of
           (Inl e, w') \<Rightarrow> (Inl e, w')
         | (Inr updated, w') \<Rightarrow> pollLoop client fid updated (attempts + 1) w')
      else (Inr (finalFile, attempts), w))"
  by pat_completeness auto
termination
  by (relation "measure (\<lambda>(client, fid, finalFile, attempts, w). MAX_POLL_ATTEMPTS - attempts)") auto

declare pollLoop.simps [simp del]

definition emptyBreakdown :: MetaBreakdown where
  "emptyBreakdown = \<lparr>byType = [], bySubtype = [], pageCount = 0\<rparr>"

definition timeoutResult :: "MethodConfig \<Rightarrow> string \<Rightarrow> int \<Rightarrow> MethodResult" where
  "timeoutResult m fid ms =
     \<lparr>method_name = mc_name m, label = mc_label m, fileId = fid, status = ''timeout'',
      failedReason = Some ''Indexing timed out after 5 minutes'', processingTimeMs = Some ms,
      passageCount = Some 0, contentCharsTotal = Some 0, metaBreakdown = Some emptyBreakdown,
      sampleText = [], costOrUsageRaw = None, method_startedAt = None\<rparr>"

definition failureResult :: "MethodConfig \<Rightarrow> string \<Rightarrow> RemoteFile \<Rightarrow> int \<Rightarrow> MethodResult" where
  "failureResult m fid finalFile ms =
     \<lparr>method_name = mc_name m, label = mc_label m, fileId = fid, status = rf_status finalFile,
      failedReason = Some (orElse (rf_failedStatusReason finalFile) ''Unknown error''),
      processingTimeMs = Some ms,
      passageCount = Some 0, contentCharsTotal = Some 0, metaBreakdown = Some emptyBreakdown,
      sampleText = [], costOrUsageRaw = None, method_startedAt = None\<rparr>"

definition completedResult ::
  "MethodConfig \<Rightarrow> string \<Rightarrow> RemoteFile \<Rightarrow> int \<Rightarrow> Passage list \<Rightarrow> MethodResult" where
  "completedResult m fid finalFile ms passages =
     \<lparr>method_name = mc_name m, label = mc_label m, fileId = fid, status = ''indexing_completed'',
      failedReason = None, processingTimeMs = Some ms,
      passageCount = Some (length passages),
      contentCharsTotal = Some (computeContentCharsTotal passages),
      metaBreakdown = Some (computeMetaBreakdown passages),
      sampleText = computeSampleText passages,
      costOrUsageRaw = (if truthy (rf_usage finalFile) then rf_usage finalFile else None),
      method_startedAt = None\<rparr>"

definition errorText :: "js_error \<Rightarrow> string" where
  "errorText error = (case error of Error message \<Rightarrow> message | Thrown text \<Rightarrow> text)"

definition caughtResult :: "MethodConfig \<Rightarrow> js_error \<Rightarrow> int \<Rightarrow> MethodResult" where
  "caughtResult m error ms =
     \<lparr>method_name = mc_name m, label = mc_label m, fileId = [], status = ''indexing_failed'',
      failedReason = Some (errorText error), processingTimeMs = Some ms,
      passageCount = Some 0, contentCharsTotal = Some 0, metaBreakdown = Some emptyBreakdown,
      sampleText = [], costOrUsageRaw = None, method_startedAt = None\<rparr>"

text \<open>The argument of \<open>client.upsertFile\<close>.\<close>

definition upsertRequest :: "nat list \<Rightarrow> string \<Rightarrow> MethodConfig \<Rightarrow> FileKey \<Rightarrow> UpsertRequest" where
  "upsertRequest fileBuffer contentType m key =
     \<lparr>up_key = key, up_size = length fileBuffer, up_index = True,
      up_contentType = contentType, up_configuration = mc_config m\<rparr>"

text \<open>
  The \<open>try\<close> block of \<open>benchmarkMethod\<close>: \<open>Inl\<close> is the value thrown inside it, \<open>None\<close>
  that the passage loop never returns.
\<close>

definition benchmarkMethodTry ::
  "'w Client \<Rightarrow> nat list \<Rightarrow> string \<Rightarrow> string \<Rightarrow> MethodConfig \<Rightarrow> int \<Rightarrow> FileKey \<Rightarrow> 'w \<Rightarrow>
   ((js_error + MethodResult) \<times> 'w) option" where
  "benchmarkMethodTry client fileBuffer fileName contentType m startTime key w =
     (case upsertFile client (upsertRequest fileBuffer contentType m key) w of
        (Inl e, w1) \<Rightarrow> Some (Inl e, w1)
      | (Inr file, w1) \<Rightarrow>
          (case rf_uploadUrl file of
             None \<Rightarrow> Some (Inl (Error ''No uploadUrl returned from upsertFile''), w1)
           | Some uploadUrl \<Rightarrow>
               if uploadUrl = [] then
                 Some (Inl (Error ''No uploadUrl returned from upsertFile''), w1)
               else
                 (case fetchPut client uploadUrl contentType fileBuffer w1 of
                    (Inl e, w2) \<Rightarrow> Some (Inl e, w2)
                  | (Inr u, w2) \<Rightarrow>
                      (case pollLoop client (rf_id file) file 0 w2 of
                         (Inl e, w3) \<Rightarrow> Some (Inl e, w3)
                       | (Inr (finalFile, attempts), w3) \<Rightarrow>
                           (let processingTimeMs = dateNow client w3 - startTime
                            in if attempts \<ge> MAX_POLL_ATTEMPTS then
                                 Some (Inr (timeoutResult m (rf_id file) processingTimeMs), w3)
                               else if rf_status finalFile = ''indexing_failed'' \<or>
                                       rf_status finalFile = ''upload_failed'' then
                                 Some (Inr (failureResult m (rf_id file) finalFile
                                              processingTimeMs), w3)
                               else
                                 (case getAllPassages client (rf_id file) w3 of
                                    None \<Rightarrow> None
                                  | Some (Inl e, w4) \<Rightarrow> Some (Inl e, w4)
                                  | Some (Inr passages, w4) \<Rightarrow>
                                      Some (Inr (completedResult m (rf_id file) finalFile
                                                   processingTimeMs passages), w4)))))))"

definition benchmarkMethod ::
  "'w Client \<Rightarrow> nat list \<Rightarrow> string \<Rightarrow> string \<Rightarrow> MethodConfig \<Rightarrow> 'w \<Rightarrow>
   (MethodResult \<times> 'w) option" where
  "benchmarkMethod client fileBuffer fileName contentType m w =
     (let startTime = dateNow client w;
          key = BenchmarkKey (mc_name m) (dateNow client w) fileName
      in case benchmarkMethodTry client fileBuffer fileName contentType m startTime key w of
           None \<Rightarrow> None
         | Some (Inr result, w') \<Rightarrow> Some (result, w')
         | Some (Inl error, w') \<Rightarrow>
             Some (caughtResult m error (dateNow client w' - startTime), w'))"

subsection \<open>runBenchmark\<close>

text \<open>The \<open>for (const method of METHODS)\<close> loop, one method after the other.\<close>

fun runMethods ::
  "'w Client \<Rightarrow> nat list \<Rightarrow> string \<Rightarrow> string \<Rightarrow> MethodConfig list \<Rightarrow> MethodResult list \<Rightarrow> 'w \<Rightarrow>
   (MethodResult list \<times> 'w) option" where
  "runMethods client fileBuffer fileName contentType [] results w = Some (results, w)"
| "runMethods client fileBuffer fileName contentType (m # ms) results w =
     (case benchmarkMethod client fileBuffer fileName contentType m w of
        None \<Rightarrow> None
      | Some (result, w') \<Rightarrow>
          runMethods client fileBuffer fileName contentType ms (results @ [result]) w')"

text \<open>
  \<open>rid\<close> is the run id \<open>run-${Date.now()}-${Math.random()...}\<close>, made from the clock and
  the random source before the first method starts. The client is the one that
  \<open>getBotpressClient()\<close> returned.
\<close>

definition runBenchmark ::
  "'w Client \<Rightarrow> string \<Rightarrow> nat list \<Rightarrow> string \<Rightarrow> string \<Rightarrow> 'w \<Rightarrow>
   (BenchmarkRunResult \<times> 'w) option" where
  "runBenchmark client rid fileBuffer fileName contentType w =
     (case runMethods client fileBuffer fileName contentType METHODS [] w of
        None \<Rightarrow> None
      | Some (results, w') \<Rightarrow>
          Some (\<lparr>runId = rid, startedAt = toISOString client (dateNow client w),
                 completedAt = toISOString client (dateNow client w'),
                 originalFile = \<lparr>file_name = fileName, file_size = length fileBuffer,
                                 file_contentType = contentType\<rparr>,
                 methods = results\<rparr>, w'))"

subsection \<open>getFilePassages and getFileStatus\<close>

definition getFilePassages ::
  "'w Client \<Rightarrow> string \<Rightarrow> nat \<Rightarrow> string option \<Rightarrow> 'w \<Rightarrow>
   (js_error + Passage list \<times> string option) \<times> 'w" where
  "getFilePassages client fid limit nextToken w =
     (case listFilePassages client fid limit nextToken w of
        (Inl e, w') \<Rightarrow> (Inl e, w')
      | (Inr result, w') \<Rightarrow> (Inr (map toPassage (lr_passages result), lr_nextToken result), w'))"

record FileStatusResponse =
  fs_fileId :: string
  fs_status :: string
  fs_failedReason :: "string option"
  fs_passageCount :: "nat option"
  fs_contentCharsTotal :: "nat option"
  fs_processingTimeMs :: "int option"
  fs_metaBreakdown :: "MetaBreakdown option"

text \<open>
  \<open>getFileStatus\<close> has no \<open>try\<close>: what \<open>getFile\<close> or the passage loop throws is thrown
  on (\<open>Inl\<close>). With \<open>startedAt\<close> given, the processing time is \<open>Date.now()\<close> minus the
  time that the text denotes; it is \<open>NaN\<close>, which JSON writes as \<open>null\<close>, when the text is
  no date.
\<close>

definition getFileStatus ::
  "'w Client \<Rightarrow> string \<Rightarrow> string option \<Rightarrow> 'w \<Rightarrow> ((js_error + FileStatusResponse) \<times> 'w) option" where
  "getFileStatus client fid startedAtParam w =
     (case getFile client fid w of
        (Inl e, w1) \<Rightarrow> Some (Inl e, w1)
      | (Inr fileData, w1) \<Rightarrow>
          (let st = rf_status fileData;
               response = \<lparr>fs_fileId = fid, fs_status = st,
                            fs_failedReason =
                              (if st = ''indexing_failed'' \<or> st = ''upload_failed''
                               then Some (orElse (rf_failedStatusReason fileData) ''Unknown error'')
                               else None),
                            fs_passageCount = None, fs_contentCharsTotal = None,
                            fs_processingTimeMs = None, fs_metaBreakdown = None\<rparr>
           in if st = ''indexing_completed'' then
                (case getAllPassages client fid w1 of
                   None \<Rightarrow> None
                 | Some (Inl e, w2) \<Rightarrow> Some (Inl e, w2)
                 | Some (Inr passages, w2) \<Rightarrow>
                     Some (Inr (response
                       \<lparr>fs_processingTimeMs :=
                          (case startedAtParam of
                             None \<Rightarrow> None
                           | Some startedAtText \<Rightarrow>
                               if startedAtText = [] then None
                               else map_option (\<lambda>t. dateNow client w2 - t)
                                      (getTime client startedAtText)),
                        fs_passageCount := Some (length passages),
                        fs_contentCharsTotal := Some (computeContentCharsTotal passages),
                        fs_metaBreakdown := Some (computeMetaBreakdown passages)\<rparr>), w2))
              else Some (Inr response, w1)))"

section \<open>Comparison engine: excerpts (src/server/aiCompare.ts)\<close>

definition EXCERPT_CHAR_LIMIT :: nat where
  "EXCERPT_CHAR_LIMIT = 4000"

text \<open>The \<open>for (const p of passages)\<close> loop with its \<open>break\<close>.\<close>

fun excerptLoop :: "string \<Rightarrow> Passage list \<Rightarrow> string" where
  "excerptLoop excerpt [] = excerpt"
| "excerptLoop excerpt (p # ps) =
     (if length excerpt + length (content p) > EXCERPT_CHAR_LIMIT then excerpt
      else excerptLoop (excerpt @ content p @ [LF, LF]) ps)"

definition getExcerpt :: "'w Client \<Rightarrow> string \<Rightarrow> 'w \<Rightarrow> string \<times> 'w" where
  "getExcerpt client fid w =
     (case getFilePassages client fid 50 None w of
        (Inl e, w') \<Rightarrow> (''[Failed to fetch content]'', w')
      | (Inr (passages, nextToken), w') \<Rightarrow>
          (let excerpt = excerptLoop [] passages
           in (if trim excerpt = [] then ''[No content extracted]'' else trim excerpt, w')))"

section \<open>Parallel search route (src/index.tsx)\<close>

record 'p SearchMethodResult =
  sr_method :: string
  sr_passages :: "'p list"
  sr_error :: "string option"

datatype 'p SearchResponse =
    BadRequest string
  | SearchOk string "'p SearchMethodResult list"

text \<open>
  \<open>searchFilesByMethod\<close> is imported from \<open>./server/benchmark\<close> and is not part of the
  sources at hand: it is the parameter \<open>search\<close>, which returns the passages found
  for one method or the value it throws. The passages are of any type \<open>'p\<close>.
\<close>

definition searchOne ::
  "(string \<Rightarrow> string \<Rightarrow> string \<Rightarrow> int \<Rightarrow> js_error + 'p list) \<Rightarrow> string \<Rightarrow> string \<Rightarrow> int \<Rightarrow> string \<Rightarrow>
   'p SearchMethodResult" where
  "searchOne search query rid limit m =
     (case search query rid m limit of
        Inr passages \<Rightarrow> \<lparr>sr_method = m, sr_passages = passages, sr_error = None\<rparr>
      | Inl error \<Rightarrow>
          \<lparr>sr_method = m, sr_passages = [],
           sr_error = Some (case error of Error message \<Rightarrow> message
                                        | Thrown text \<Rightarrow> ''Search failed'')\<rparr>)"

text \<open>
  The \<open>GET\<close> handler of \<open>/api/botpress/search\<close>; \<open>q\<close> and \<open>runIdParam\<close> are the query
  parameters (\<open>None\<close> when missing) and \<open>limit\<close> is the parsed \<open>limit\<close> parameter.
\<close>

definition searchHandler ::
  "(string \<Rightarrow> string \<Rightarrow> string \<Rightarrow> int \<Rightarrow> js_error + 'p list) \<Rightarrow> string option \<Rightarrow> string option \<Rightarrow> int \<Rightarrow>
   'p SearchResponse" where
  "searchHandler search q runIdParam limit =
     (case (q, runIdParam) of
        (Some query, Some rid) \<Rightarrow>
          if query = [] \<or> rid = [] then BadRequest ''Missing query or runId''
          else
            (let methods = [''basic'', ''vision'', ''landing-ai''];
                 results = map (searchOne search query rid limit) methods
             in SearchOk query results)
      | _ \<Rightarrow> BadRequest ''Missing query or runId'')"

section \<open>Notions used in the statements\<close>

text \<open>
  What a reader of the store sees of one run: the entry that \<open>getRunById\<close> returns,
  the status of its first method of a given name (the one that \<open>findIndex\<close> picks),
  its \<open>completedAt\<close>, and whether all of its methods are in a final status.
  \<open>applyMerges\<close> is a sequence of calls of \<open>updateMethodInHistory\<close>.
\<close>

definition storedRun :: "string \<Rightarrow> localStorage \<Rightarrow> HistoryEntry option" where
  "storedRun rid ls = (case getRunById rid ls of Inl e \<Rightarrow> None | Inr found \<Rightarrow> found)"

definition storedStatus :: "string \<Rightarrow> string \<Rightarrow> localStorage \<Rightarrow> string option" where
  "storedStatus rid methodName ls =
     (case storedRun rid ls of
        None \<Rightarrow> None
      | Some h \<Rightarrow> map_option status (find (\<lambda>m. method_name m = methodName) (methods h)))"

definition storedCompletedAt :: "string \<Rightarrow> localStorage \<Rightarrow> string option" where
  "storedCompletedAt rid ls = map_option completedAt (storedRun rid ls)"

definition allComplete :: "string \<Rightarrow> localStorage \<Rightarrow> bool" where
  "allComplete rid ls =
     (case storedRun rid ls of None \<Rightarrow> False | Some h \<Rightarrow> list_all isComplete (methods h))"

fun applyMerges ::
  "(string \<times> string \<times> MethodUpdate \<times> string) list \<Rightarrow> localStorage \<Rightarrow> localStorage" where
  "applyMerges [] ls = ls"
| "applyMerges ((rid, methodName, update, now) # rest) ls =
     applyMerges rest (updateMethodInHistory rid methodName update now ls)"

text \<open>
  The stores that the operations produce, starting from an empty storage. Run ids are
  never empty: \<open>runBenchmark\<close> makes them as \<open>run-\<close>, the time and a random suffix, the
  start route answers 400 to a request without a run id, and \<open>importHistory\<close> takes no
  entry without one.
\<close>

inductive reachable :: "localStorage \<Rightarrow> bool" where
  reachable_empty: "reachable None"
| reachable_add: "reachable ls \<Longrightarrow> runId result \<noteq> [] \<Longrightarrow> reachable (addToHistory result ls)"
| reachable_pending:
    "reachable ls \<Longrightarrow> pe_runId entry \<noteq> [] \<Longrightarrow> reachable (createPendingEntry entry ls)"
| reachable_merge:
    "reachable ls \<Longrightarrow> reachable (updateMethodInHistory rid methodName update now ls)"
| reachable_comparison:
    "reachable ls \<Longrightarrow> reachable (updateHistoryWithAiComparison rid ai ls)"
| reachable_clear: "reachable ls \<Longrightarrow> reachable (clearHistory ls)"
| reachable_import: "reachable ls \<Longrightarrow> reachable (snd (importHistory json ls))"

code_pred reachable .

text \<open>
  What the remote service does in the two loops of the method runner, told without the
  loops. \<open>afterPolls client fid k file w\<close> is the file object and the world after \<open>k\<close>
  polls from the file \<open>file\<close> in the world \<open>w\<close>, each made after a sleep because the file
  object before it was pending, and each answered. \<open>afterPages client fid k token w\<close> is
  what \<open>k\<close> pages of 200 passages hold, asked for one after the other from the token
  \<open>token\<close>, each answered with a token for the next page; with it come that token and
  the world.
\<close>

fun afterPolls ::
  "'w Client \<Rightarrow> string \<Rightarrow> nat \<Rightarrow> RemoteFile \<Rightarrow> 'w \<Rightarrow> (RemoteFile \<times> 'w) option" where
  "afterPolls client fid 0 file w = Some (file, w)"
| "afterPolls client fid (Suc k) file w =
     (if isPending (rf_status file) then
        (case getFile client fid (sleep client POLL_INTERVAL_MS w) of
           (Inl e, w') \<Rightarrow> None
         | (Inr updated, w') \<Rightarrow> afterPolls client fid k updated w')
      else None)"

fun afterPages ::
  "'w Client \<Rightarrow> string \<Rightarrow> nat \<Rightarrow> string option \<Rightarrow> 'w \<Rightarrow>
   (RemotePassage list \<times> string option \<times> 'w) option" where
  "afterPages client fid 0 token w = Some ([], token, w)"
| "afterPages client fid (Suc k) token w =
     (case listFilePassages client fid 200 token w of
        (Inl e, w') \<Rightarrow> None
      | (Inr result, w') \<Rightarrow>
          if truthy (lr_nextToken result) then
            (case afterPages client fid k (lr_nextToken result) w' of
               None \<Rightarrow> None
             | Some (later, token', w'') \<Rightarrow> Some (lr_passages result @ later, token', w''))
          else None)"

text \<open>
  For the excerpts: the text of a list of whole passages, each followed by the blank
  line that the loop appends, and the last step of \<open>getExcerpt\<close>, which trims the text
  and puts a placeholder in the place of an empty one.
\<close>

definition wholePassages :: "Passage list \<Rightarrow> string" where
  "wholePassages ps = concat (map (\<lambda>p. content p @ [LF, LF]) ps)"

definition finishExcerpt :: "string \<Rightarrow> string" where
  "finishExcerpt excerpt = (if trim excerpt = [] then ''[No content extracted]'' else trim excerpt)"

section \<open>Example data\<close>

definition exampleFile :: OriginalFile where
  "exampleFile = \<lparr>file_name = ''report.pdf'', file_size = 1024, file_contentType = ''application/pdf''\<rparr>"

definition exampleRun :: "string \<Rightarrow> MethodResult list \<Rightarrow> BenchmarkRunResult" where
  "exampleRun rid ms =
     \<lparr>runId = rid, startedAt = ''2025-01-01T00:00:00.000Z'',
      completedAt = ''2025-01-01T00:05:00.000Z'', originalFile = exampleFile, methods = ms\<rparr>"

definition examplePendingMethod :: "string \<Rightarrow> string \<Rightarrow> PendingMethod" where
  "examplePendingMethod name st =
     \<lparr>pm_method = name, pm_label = name, pm_fileId = ''file-'' @ name, pm_status = st,
      pm_startedAt = ''2025-01-01T00:00:00.000Z''\<rparr>"

definition examplePending :: "string \<Rightarrow> PendingMethod list \<Rightarrow> PendingHistoryEntry" where
  "examplePending rid ms =
     \<lparr>pe_runId = rid, pe_startedAt = ''2025-01-01T00:00:00.000Z'',
      pe_originalFile = exampleFile, pe_methods = ms\<rparr>"

definition timedOutStore :: localStorage where
  "timedOutStore =
     setItem [toEntry (exampleRun ''run-1''
       [pendingMethodResult (examplePendingMethod ''basic'' ''timeout''),
        pendingMethodResult (examplePendingMethod ''vision'' ''indexing_pending'')])]"

definition completedUpdate :: MethodUpdate where
  "completedUpdate =
     \<lparr>u_status = ''indexing_completed'', u_failedReason = Present None,
      u_passageCount = Present (Some 10), u_contentCharsTotal = Present (Some 1234),
      u_processingTimeMs = Present (Some 310000),
      u_metaBreakdown = Present (Some \<lparr>byType = [], bySubtype = [], pageCount = 2\<rparr>)\<rparr>"

definition timeoutUpdate :: MethodUpdate where
  "timeoutUpdate =
     \<lparr>u_status = ''timeout'', u_failedReason = Present (Some ''Indexing timed out after 5 minutes''),
      u_passageCount = Absent, u_contentCharsTotal = Absent, u_processingTimeMs = Absent,
      u_metaBreakdown = Absent\<rparr>"

definition pendingStore :: localStorage where
  "pendingStore =
     createPendingEntry (examplePending ''run-2''
       [examplePendingMethod ''basic'' ''indexing_pending'',
        examplePendingMethod ''vision'' ''indexing_pending'']) None"

definition afterBasicCompleted :: localStorage where
  "afterBasicCompleted =
     updateMethodInHistory ''run-2'' ''basic'' completedUpdate ''2025-01-01T00:00:45.000Z''
       pendingStore"

definition afterVisionTimeout :: localStorage where
  "afterVisionTimeout =
     updateMethodInHistory ''run-2'' ''vision'' timeoutUpdate ''2025-01-01T00:05:02.000Z''
       afterBasicCompleted"

definition fullHistory :: "HistoryEntry list" where
  "fullHistory = map (\<lambda>n. toEntry (exampleRun (replicate n CHR ''r'') [])) [1..<26]"

text \<open>
  A remote service for the examples. Its world is the number of \<open>getFile\<close> calls made
  so far; the clock advances by two seconds with each of them. The \<open>k\<close>-th call of
  \<open>getFile\<close> reports the status \<open>statusAt k\<close>, and the passages are listed on one page.
\<close>

definition exampleFileObject :: "string \<Rightarrow> RemoteFile" where
  "exampleFileObject st =
     \<lparr>rf_id = ''file-1'', rf_status = st, rf_uploadUrl = Some ''https://upload.example/file-1'',
      rf_failedStatusReason = None, rf_usage = None\<rparr>"

definition scriptedClient :: "(nat \<Rightarrow> string) \<Rightarrow> RemotePassage list \<Rightarrow> nat Client" where
  "scriptedClient statusAt passages =
     \<lparr>upsertFile = (\<lambda>req n. (Inr (exampleFileObject ''upload_pending''), n)),
      getFile = (\<lambda>fid n. (Inr (exampleFileObject (statusAt (n + 1))), n + 1)),
      listFilePassages =
        (\<lambda>fid limit nextToken n. (Inr \<lparr>lr_passages = passages, lr_nextToken = None\<rparr>, n)),
      fetchPut = (\<lambda>url contentType body n. (Inr (), n)),
      sleep = (\<lambda>ms n. n),
      dateNow = (\<lambda>n. 2000 * int n),
      toISOString = (\<lambda>t. ''2025-01-01T00:00:00.000Z''),
      getTime = (\<lambda>text. Some 0)\<rparr>"

definition lateCompletion :: "nat \<Rightarrow> string" where
  "lateCompletion k = (if k < 150 then ''indexing_pending'' else ''indexing_completed'')"

definition basicMethod :: MethodConfig where
  "basicMethod = \<lparr>mc_name = ''basic'', mc_label = ''Basic'', mc_config = EmptyConfig\<rparr>"

definition immediately :: "string \<Rightarrow> nat \<Rightarrow> string" where
  "immediately st k = st"

definition twoPassages :: "RemotePassage list" where
  "twoPassages =
     [\<lparr>rp_id = ''p1'', rp_content = ''Revenue table'',
       rp_meta = Some \<lparr>meta_type = Some ''chunk'', meta_subtype = Some ''table'',
                        pageNumber = Some 1, position = None, sourceUrl = None\<rparr>\<rparr>,
      \<lparr>rp_id = ''p2'', rp_content = ''Notes'', rp_meta = None\<rparr>]"

text \<open>
  Passages whose type names a member of \<open>Object.prototype\<close> and whose subtype is
  \<open>__proto__\<close> or empty.
\<close>

definition oddlyTypedPassages :: "RemotePassage list" where
  "oddlyTypedPassages =
     [\<lparr>rp_id = ''p1'', rp_content = ''a'',
       rp_meta = Some \<lparr>meta_type = Some ''constructor'', meta_subtype = Some ''__proto__'',
                        pageNumber = Some 3, position = None, sourceUrl = None\<rparr>\<rparr>,
      \<lparr>rp_id = ''p2'', rp_content = ''b'',
       rp_meta = Some \<lparr>meta_type = Some ''constructor'', meta_subtype = Some [],
                        pageNumber = Some 3, position = None, sourceUrl = None\<rparr>\<rparr>]"

definition failingClient :: "js_error \<Rightarrow> nat Client" where
  "failingClient e = (scriptedClient (immediately ''indexing_completed'') [])
     \<lparr>upsertFile := (\<lambda>req n. (Inl e, n + 1))\<rparr>"

definition noUrlClient :: "nat Client" where
  "noUrlClient = (scriptedClient (immediately ''indexing_completed'') [])
     \<lparr>upsertFile :=
        (\<lambda>req n. (Inr ((exampleFileObject ''upload_pending'')\<lparr>rf_uploadUrl := None\<rparr>), n))\<rparr>"

definition uploadFailClient :: "js_error \<Rightarrow> nat Client" where
  "uploadFailClient e = (scriptedClient (immediately ''indexing_completed'') [])
     \<lparr>fetchPut := (\<lambda>url contentType body n. (Inl e, n + 1))\<rparr>"

definition listFailClient :: "nat Client" where
  "listFailClient = (scriptedClient (immediately ''indexing_completed'') [])
     \<lparr>listFilePassages := (\<lambda>fid limit nextToken n. (Inl (Error ''not found''), n))\<rparr>"

text \<open>
  A service whose third \<open>getFile\<close> call throws while the file is still pending, and
  one that lists a first page of passages and throws at the second.
\<close>

definition pollFailClient :: "nat Client" where
  "pollFailClient = (scriptedClient (immediately ''indexing_pending'') [])
     \<lparr>getFile := (\<lambda>fid n. if n < 2 then (Inr (exampleFileObject ''indexing_pending''), n + 1)
                          else (Inl (Error ''connection reset''), n + 1))\<rparr>"

definition secondPageFailClient :: "nat Client" where
  "secondPageFailClient = (scriptedClient (immediately ''indexing_completed'') [])
     \<lparr>listFilePassages :=
        (\<lambda>fid limit nextToken n.
           if nextToken = None
           then (Inr \<lparr>lr_passages = twoPassages, lr_nextToken = Some ''page-2''\<rparr>, n)
           else (Inl (Thrown ''rate limited''), n))\<rparr>"

definition textPassage :: "string \<Rightarrow> string \<Rightarrow> RemotePassage" where
  "textPassage pid text = \<lparr>rp_id = pid, rp_content = text, rp_meta = None\<rparr>"

definition longPassages :: "RemotePassage list" where
  "longPassages =
     [textPassage ''p1'' (replicate 3000 CHR ''a''),
      textPassage ''p2'' (replicate 900 CHR ''b''),
      textPassage ''p3'' (replicate 500 CHR ''c'')]"

definition exampleSearch :: "string \<Rightarrow> string \<Rightarrow> string \<Rightarrow> int \<Rightarrow> js_error + string list" where
  "exampleSearch query rid m limit =
     (if m = ''vision'' then Inl (Error ''file not indexed'')
      else Inr [m @ '': '' @ query])"

text \<open>A search that throws an \<open>Error\<close> with the empty message for one method.\<close>

definition emptyMessageSearch :: "string \<Rightarrow> string \<Rightarrow> string \<Rightarrow> int \<Rightarrow> js_error + string list" where
  "emptyMessageSearch query rid m limit =
     (if m = ''vision'' then Inl (Error []) else Inr [m @ '': '' @ query])"

section \<open>Verified properties\<close>

subsection \<open>History bound and eviction\<close>

lemma take_max_Cons: "take MAX_HISTORY_ITEMS (e # xs) = e # take 24 xs"
  by (simp add: MAX_HISTORY_ITEMS_def take_Cons')

lemma insert_length: "length (take MAX_HISTORY_ITEMS (e # xs)) \<le> 25"
  by (simp add: MAX_HISTORY_ITEMS_def)

lemma insert_fresh_full:
  assumes "length H = 25" and "rid \<notin> runId ` set H"
  shows "take MAX_HISTORY_ITEMS (e # filter (\<lambda>h. runId h \<noteq> rid) H) = e # butlast H"
proof -
  have "filter (\<lambda>h. runId h \<noteq> rid) H = H"
    using assms(2) by (auto simp: filter_id_conv)
  moreover have "take 24 H = butlast H"
    using assms(1) by (simp add: butlast_conv_take)
  ultimately show ?thesis by (simp add: take_max_Cons)
qed

lemma insert_present:
  assumes "length H \<le> 25" and "rid \<in> runId ` set H"
  shows "take MAX_HISTORY_ITEMS (e # filter (\<lambda>h. runId h \<noteq> rid) H) =
         e # filter (\<lambda>h. runId h \<noteq> rid) H"
proof -
  from assms(2) obtain h where "h \<in> set H" and "\<not> runId h \<noteq> rid" by auto
  then have "length (filter (\<lambda>h. runId h \<noteq> rid) H) < length H"
    by (rule length_filter_less)
  with assms(1) show ?thesis by (simp add: take_max_Cons)
qed

lemma insert_unique:
  assumes "runId e = rid"
  shows "length (filter (\<lambda>h. runId h = rid)
           (take MAX_HISTORY_ITEMS (e # filter (\<lambda>h. runId h \<noteq> rid) H))) = 1"
proof -
  let ?rest = "take 24 (filter (\<lambda>h. runId h \<noteq> rid) H)"
  have "set ?rest \<subseteq> set (filter (\<lambda>h. runId h \<noteq> rid) H)"
    by (rule set_take_subset)
  then have "\<forall>h \<in> set ?rest. \<not> runId h = rid"
    by auto
  then have "filter (\<lambda>h. runId h = rid) ?rest = []"
    by (rule filter_False)
  then have "filter (\<lambda>h. runId h = rid) (e # ?rest) = [e]"
    using assms by simp
  then show ?thesis
    by (simp only: take_max_Cons list.size One_nat_def add_0)
qed

lemma insert_distinct:
  assumes "distinct (map runId H)" and "runId e = rid"
  shows "distinct (map runId (take MAX_HISTORY_ITEMS (e # filter (\<lambda>h. runId h \<noteq> rid) H)))"
proof -
  have "distinct (map runId (filter (\<lambda>h. runId h \<noteq> rid) H))"
    using assms(1) by (rule distinct_map_filter)
  then have "distinct (take 24 (map runId (filter (\<lambda>h. runId h \<noteq> rid) H)))"
    by (rule distinct_take)
  then have "distinct (map runId (take 24 (filter (\<lambda>h. runId h \<noteq> rid) H)))"
    by (simp only: take_map)
  moreover have "set (take 24 (filter (\<lambda>h. runId h \<noteq> rid) H)) \<subseteq> set (filter (\<lambda>h. runId h \<noteq> rid) H)"
    by (rule set_take_subset)
  then have "rid \<notin> runId ` set (take 24 (filter (\<lambda>h. runId h \<noteq> rid) H))"
    by auto
  ultimately show ?thesis using assms(2) by (simp add: take_max_Cons)
qed

lemma runId_toEntry: "runId (toEntry r) = runId r"
  by (simp add: toEntry_def)

lemma runId_pendingHistoryEntry: "runId (pendingHistoryEntry p) = pe_runId p"
  by (simp add: pendingHistoryEntry_def)

lemma getHistory_setItem: "getHistory (setItem h) = Entries h"
  by (simp add: getHistory_def setItem_def)

lemma addToHistory_entries:
  "getHistory ls = Entries H \<Longrightarrow>
   addToHistory r ls =
     setItem (take MAX_HISTORY_ITEMS (toEntry r # filter (\<lambda>h. runId h \<noteq> runId r) H))"
  by (simp add: addToHistory_def Let_def runId_toEntry)

lemma createPendingEntry_entries:
  "getHistory ls = Entries H \<Longrightarrow>
   createPendingEntry p ls =
     setItem (take MAX_HISTORY_ITEMS
       (pendingHistoryEntry p # filter (\<lambda>h. runId h \<noteq> pe_runId p) H))"
  by (simp add: createPendingEntry_def Let_def)

text \<open>
  Claim C5. Let the store hold the list \<open>H\<close> (or nothing, or a text that is empty or not
  JSON, where \<open>H\<close> is empty). After \<open>addToHistory\<close> and after \<open>createPendingEntry\<close> the
  store holds at most 25 entries; when \<open>H\<close> has 25 entries and the run id is new, the
  result is the new entry followed by \<open>H\<close> without its last, oldest, entry; when the run
  id is already there, the entries of that id are removed and the new entry is put in
  front; in every case the new entry is first, it is the only entry with its run id, and
  run ids that were distinct stay distinct.
\<close>

theorem history_bound_and_eviction:
  assumes "getHistory ls = Entries H"
  shows "\<exists>A B. getHistory (addToHistory r ls) = Entries A
    \<and> getHistory (createPendingEntry p ls) = Entries B
    \<and> length A \<le> 25 \<and> length B \<le> 25
    \<and> (length H = 25 \<and> runId r \<notin> runId ` set H \<longrightarrow> A = toEntry r # butlast H)
    \<and> (length H = 25 \<and> pe_runId p \<notin> runId ` set H \<longrightarrow> B = pendingHistoryEntry p # butlast H)
    \<and> (length H \<le> 25 \<and> runId r \<in> runId ` set H \<longrightarrow>
          A = toEntry r # filter (\<lambda>h. runId h \<noteq> runId r) H)
    \<and> (length H \<le> 25 \<and> pe_runId p \<in> runId ` set H \<longrightarrow>
          B = pendingHistoryEntry p # filter (\<lambda>h. runId h \<noteq> pe_runId p) H)
    \<and> hd A = toEntry r \<and> hd B = pendingHistoryEntry p
    \<and> length (filter (\<lambda>h. runId h = runId r) A) = 1
    \<and> length (filter (\<lambda>h. runId h = pe_runId p) B) = 1
    \<and> (distinct (map runId H) \<longrightarrow> distinct (map runId A) \<and> distinct (map runId B))"
proof -
  let ?A = "take MAX_HISTORY_ITEMS (toEntry r # filter (\<lambda>h. runId h \<noteq> runId r) H)"
  let ?B = "take MAX_HISTORY_ITEMS (pendingHistoryEntry p # filter (\<lambda>h. runId h \<noteq> pe_runId p) H)"
  have a: "getHistory (addToHistory r ls) = Entries ?A"
    by (simp only: addToHistory_entries [OF assms] getHistory_setItem)
  have b: "getHistory (createPendingEntry p ls) = Entries ?B"
    by (simp only: createPendingEntry_entries [OF assms] getHistory_setItem)
  have c: "length ?A \<le> 25" and d: "length ?B \<le> 25"
    by (rule insert_length)+
  have e: "length H = 25 \<and> runId r \<notin> runId ` set H \<longrightarrow> ?A = toEntry r # butlast H"
    using insert_fresh_full [of H "runId r" "toEntry r"] by blast
  have f: "length H = 25 \<and> pe_runId p \<notin> runId ` set H \<longrightarrow> ?B = pendingHistoryEntry p # butlast H"
    using insert_fresh_full [of H "pe_runId p" "pendingHistoryEntry p"] by blast
  have g: "length H \<le> 25 \<and> runId r \<in> runId ` set H \<longrightarrow>
          ?A = toEntry r # filter (\<lambda>h. runId h \<noteq> runId r) H"
    using insert_present [of H "runId r" "toEntry r"] by blast
  have h: "length H \<le> 25 \<and> pe_runId p \<in> runId ` set H \<longrightarrow>
          ?B = pendingHistoryEntry p # filter (\<lambda>h. runId h \<noteq> pe_runId p) H"
    using insert_present [of H "pe_runId p" "pendingHistoryEntry p"] by blast
  have i: "hd ?A = toEntry r" and j: "hd ?B = pendingHistoryEntry p"
    by (simp_all only: take_max_Cons list.sel)
  have k: "length (filter (\<lambda>h. runId h = runId r) ?A) = 1"
    by (rule insert_unique) (rule runId_toEntry)
  have l: "length (filter (\<lambda>h. runId h = pe_runId p) ?B) = 1"
    by (rule insert_unique) (rule runId_pendingHistoryEntry)
  have m: "distinct (map runId H) \<longrightarrow> distinct (map runId ?A) \<and> distinct (map runId ?B)"
    using insert_distinct [of H "toEntry r" "runId r"]
      insert_distinct [of H "pendingHistoryEntry p" "pe_runId p"]
    by (simp add: runId_toEntry runId_pendingHistoryEntry)
  show ?thesis
    by (rule exI [of _ ?A], rule exI [of _ ?B], intro conjI)
       (fact a, fact b, fact c, fact d, fact e, fact f, fact g, fact h, fact i, fact j,
        fact k, fact l, fact m)
qed


theorem history_bound_and_eviction_witness:
  "getHistory (setItem fullHistory) = Entries fullHistory \<and> length fullHistory = 25 \<and>
   distinct (map runId fullHistory) \<and>
   getHistory (addToHistory (exampleRun ''new'' []) (setItem fullHistory)) =
     Entries (toEntry (exampleRun ''new'' []) # butlast fullHistory) \<and>
   getHistory (createPendingEntry (examplePending ''new'' []) (setItem fullHistory)) =
     Entries (pendingHistoryEntry (examplePending ''new'' []) # butlast fullHistory) \<and>
   distinct (map runId (toEntry (exampleRun ''new'' []) # butlast fullHistory)) \<and>
   getHistory (addToHistory (exampleRun ''r'' []) (setItem fullHistory)) =
     Entries (toEntry (exampleRun ''r'' []) # filter (\<lambda>h. runId h \<noteq> ''r'') fullHistory) \<and>
   length (toEntry (exampleRun ''r'' []) # filter (\<lambda>h. runId h \<noteq> ''r'') fullHistory) \<le> 25"
proof -
  have ids: "map runId fullHistory = map (\<lambda>n. replicate n CHR ''r'') [1..<26]"
    by (simp add: fullHistory_def toEntry_def exampleRun_def comp_def)
  have len: "length fullHistory = 25"
    by (simp add: fullHistory_def)
  have neq: "''new'' \<noteq> replicate n CHR ''r''" for n
    by (cases n) simp_all
  have "''new'' \<notin> set (map (\<lambda>n. replicate n CHR ''r'') [1..<26])"
    using neq by auto
  then have "''new'' \<notin> set (map runId fullHistory)"
    unfolding ids .
  then have fresh: "''new'' \<notin> runId ` set fullHistory"
    by simp
  have "inj_on (\<lambda>n. replicate n CHR ''r'') (set [1..<26])"
    by (auto simp: inj_on_def dest: arg_cong [where f = length])
  then have dist: "distinct (map runId fullHistory)"
    unfolding ids by (simp add: distinct_map)
  have "''r'' = replicate 1 CHR ''r''"
    by simp
  then have "''r'' \<in> set (map runId fullHistory)"
    unfolding ids by (simp only: set_map) (rule imageI, simp)
  then have present: "''r'' \<in> runId ` set fullHistory"
    by simp
  have r: "runId (exampleRun rid []) = rid" and p: "pe_runId (examplePending rid []) = rid" for rid
    by (simp_all add: exampleRun_def examplePending_def)
  note t1 = history_bound_and_eviction [of "setItem fullHistory" fullHistory
      "exampleRun ''new'' []" "examplePending ''new'' []", OF getHistory_setItem]
  note t2 = history_bound_and_eviction [of "setItem fullHistory" fullHistory
      "exampleRun ''r'' []" "examplePending ''r'' []", OF getHistory_setItem]
  from t1 obtain A B where
    a: "getHistory (addToHistory (exampleRun ''new'' []) (setItem fullHistory)) = Entries A"
    and b: "getHistory (createPendingEntry (examplePending ''new'' []) (setItem fullHistory)) =
            Entries B"
    and a25: "length fullHistory = 25 \<and> runId (exampleRun ''new'' []) \<notin> runId ` set fullHistory
              \<longrightarrow> A = toEntry (exampleRun ''new'' []) # butlast fullHistory"
    and b25: "length fullHistory = 25 \<and>
              pe_runId (examplePending ''new'' []) \<notin> runId ` set fullHistory
              \<longrightarrow> B = pendingHistoryEntry (examplePending ''new'' []) # butlast fullHistory"
    and d: "distinct (map runId fullHistory) \<longrightarrow>
            distinct (map runId A) \<and> distinct (map runId B)"
    by blast
  from a25 b25 len fresh have A: "A = toEntry (exampleRun ''new'' []) # butlast fullHistory"
    and B: "B = pendingHistoryEntry (examplePending ''new'' []) # butlast fullHistory"
    by (simp_all add: r p)
  from t2 obtain C D where
    c: "getHistory (addToHistory (exampleRun ''r'' []) (setItem fullHistory)) = Entries C"
    and c25: "length C \<le> 25"
    and cr: "length fullHistory \<le> 25 \<and> runId (exampleRun ''r'' []) \<in> runId ` set fullHistory
             \<longrightarrow> C = toEntry (exampleRun ''r'' []) #
                      filter (\<lambda>h. runId h \<noteq> runId (exampleRun ''r'' [])) fullHistory"
    by blast
  from cr len present have C: "C = toEntry (exampleRun ''r'' []) #
      filter (\<lambda>h. runId h \<noteq> ''r'') fullHistory"
    by (simp add: r)
  from a b c A B C d dist c25 len show ?thesis
    by (simp add: getHistory_setItem)
qed

subsection \<open>Merging a method update\<close>

lemma findIndex_None: "findIndex P xs = None \<longleftrightarrow> find P xs = None"
  by (induction xs) auto

lemma findIndex_Some:
  "findIndex P xs = Some i \<Longrightarrow> i < length xs \<and> P (xs ! i) \<and> find P xs = Some (xs ! i)"
  by (induction xs arbitrary: i) (auto split: if_splits)

lemma find_update_hit:
  "findIndex P xs = Some i \<Longrightarrow> P y \<Longrightarrow> find P (xs[i := y]) = Some y"
  by (induction xs arbitrary: i) (auto split: if_splits)

lemma find_update_miss:
  "i < length xs \<Longrightarrow> \<not> Q (xs ! i) \<Longrightarrow> \<not> Q y \<Longrightarrow> find Q (xs[i := y]) = find Q xs"
  by (induction xs arbitrary: i) (auto simp: nth_Cons' split: nat.splits)


lemma storedRun_entries:
  "getHistory ls = Entries H \<Longrightarrow> storedRun rid ls = find (\<lambda>h. runId h = rid) H"
  by (simp add: storedRun_def getRunById_def)

lemma storedRun_not_array:
  "getHistory ls = NotArray v \<Longrightarrow> storedRun rid ls = None"
  by (simp add: storedRun_def getRunById_def)

lemma updateEntry_runId: "updateEntry mn u now h = Some h' \<Longrightarrow> runId h' = runId h"
  by (auto simp: updateEntry_def Let_def split: option.splits)

lemma updateEntry_None:
  "updateEntry mn u now h = None \<longleftrightarrow> find (\<lambda>m. method_name m = mn) (methods h) = None"
proof (cases "findIndex (\<lambda>m. method_name m = mn) (methods h)")
  case None
  then show ?thesis
    by (simp add: updateEntry_def findIndex_None [symmetric])
next
  case (Some i)
  from findIndex_Some [OF Some] Some show ?thesis
    by (simp add: updateEntry_def Let_def)
qed

lemma method_name_mergeMethod: "method_name (mergeMethod m u) = method_name m"
  by (simp add: mergeMethod_def)

lemma status_mergeMethod: "status (mergeMethod m u) = u_status u"
  by (simp add: mergeMethod_def)

lemma updateEntry_find:
  assumes "updateEntry mn u now h = Some h'"
  shows "map_option status (find (\<lambda>m. method_name m = mn') (methods h')) =
         (if mn' = mn then Some (u_status u)
          else map_option status (find (\<lambda>m. method_name m = mn') (methods h)))"
proof -
  from assms obtain i where i: "findIndex (\<lambda>m. method_name m = mn) (methods h) = Some i"
    and ms: "methods h' = (methods h)[i := mergeMethod (methods h ! i) u]"
    by (auto simp: updateEntry_def Let_def split: option.splits)
  from findIndex_Some [OF i]
  have lt: "i < length (methods h)" and nm: "method_name (methods h ! i) = mn"
    by simp_all
  show ?thesis
  proof (cases "mn' = mn")
    case True
    have "find (\<lambda>m. method_name m = mn) ((methods h)[i := mergeMethod (methods h ! i) u]) =
          Some (mergeMethod (methods h ! i) u)"
      using i by (rule find_update_hit) (simp add: method_name_mergeMethod nm)
    with True ms show ?thesis by (simp add: status_mergeMethod)
  next
    case False
    have "find (\<lambda>m. method_name m = mn') ((methods h)[i := mergeMethod (methods h ! i) u]) =
          find (\<lambda>m. method_name m = mn') (methods h)"
      using lt by (rule find_update_miss) (use False nm in \<open>simp_all add: method_name_mergeMethod\<close>)
    with False ms show ?thesis by simp
  qed
qed

lemma updateEntry_completedAt:
  "updateEntry mn u now h = Some h' \<Longrightarrow>
   completedAt h' =
     (if list_all isComplete (methods h') \<and> completedAt h = [] then now else completedAt h)"
  by (auto simp: updateEntry_def Let_def split: option.splits)

lemma updateMethodInHistory_storedRun:
  "storedRun rid' (updateMethodInHistory rid mn u now ls) =
     (if rid' = rid then
        (case storedRun rid ls of
           None \<Rightarrow> None
         | Some h \<Rightarrow> (case updateEntry mn u now h of None \<Rightarrow> Some h | Some h' \<Rightarrow> Some h'))
      else storedRun rid' ls)"
proof (cases "getHistory ls")
  case (NotArray v)
  then show ?thesis
    by (simp add: updateMethodInHistory_def storedRun_not_array)
next
  case (Entries H)
  note H = this
  show ?thesis
  proof (cases "findIndex (\<lambda>h. runId h = rid) H")
    case None
    then have "find (\<lambda>h. runId h = rid) H = None"
      by (simp add: findIndex_None)
    with None H show ?thesis
      by (simp add: updateMethodInHistory_def storedRun_entries)
  next
    case (Some i)
    from findIndex_Some [OF Some]
    have lt: "i < length H" and rid: "runId (H ! i) = rid"
      and found: "find (\<lambda>h. runId h = rid) H = Some (H ! i)"
      by simp_all
    show ?thesis
    proof (cases "updateEntry mn u now (H ! i)")
      case None
      with Some H found show ?thesis
        by (simp add: updateMethodInHistory_def storedRun_entries)
    next
      case (Some h')
      note h' = this
      have rid': "runId h' = rid"
        using updateEntry_runId [OF h'] rid by simp
      have upd: "updateMethodInHistory rid mn u now ls = setItem (H[i := h'])"
        using H \<open>findIndex (\<lambda>h. runId h = rid) H = Some i\<close> h'
        by (simp add: updateMethodInHistory_def)
      have hit: "find (\<lambda>h. runId h = rid) (H[i := h']) = Some h'"
        using \<open>findIndex (\<lambda>h. runId h = rid) H = Some i\<close> rid' by (rule find_update_hit)
      have miss: "find (\<lambda>h. runId h = rid') (H[i := h']) = find (\<lambda>h. runId h = rid') H"
        if "rid' \<noteq> rid"
        using lt by (rule find_update_miss) (use that rid rid' in simp_all)
      show ?thesis
        using H found h' hit miss
        by (simp add: upd storedRun_entries [OF getHistory_setItem] storedRun_entries [OF H])
    qed
  qed
qed

text \<open>
  Claim C3, as amended. \<open>updateMethodInHistory\<close> has no guard for final statuses: when
  the run and the method are in the store, the method has the status of the update after
  the merge, whatever it had before, so that a final status stays only if the update
  carries the same one. The status of every other method, of this run or of another, is
  what it was.
\<close>

theorem merge_overwrites_status:
  "(storedStatus rid mn ls = Some s \<longrightarrow>
      storedStatus rid mn (updateMethodInHistory rid mn u now ls) = Some (u_status u)) \<and>
   (rid' \<noteq> rid \<or> mn' \<noteq> mn \<longrightarrow>
      storedStatus rid' mn' (updateMethodInHistory rid mn u now ls) = storedStatus rid' mn' ls)"
proof (intro conjI impI)
  assume s: "storedStatus rid mn ls = Some s"
  then obtain h where h: "storedRun rid ls = Some h"
    and f: "find (\<lambda>m. method_name m = mn) (methods h) \<noteq> None"
    by (auto simp: storedStatus_def split: option.splits)
  from f obtain h' where h': "updateEntry mn u now h = Some h'"
    using updateEntry_None [of mn u now h] by (cases "updateEntry mn u now h") simp_all
  have "storedRun rid (updateMethodInHistory rid mn u now ls) = Some h'"
    by (simp add: updateMethodInHistory_storedRun h h')
  then show "storedStatus rid mn (updateMethodInHistory rid mn u now ls) = Some (u_status u)"
    using updateEntry_find [OF h', of mn] by (simp add: storedStatus_def)
next
  assume other: "rid' \<noteq> rid \<or> mn' \<noteq> mn"
  show "storedStatus rid' mn' (updateMethodInHistory rid mn u now ls) = storedStatus rid' mn' ls"
  proof (cases "rid' = rid")
    case False
    then show ?thesis
      by (simp add: storedStatus_def updateMethodInHistory_storedRun)
  next
    case True
    with other have neq: "mn' \<noteq> mn" by simp
    show ?thesis
    proof (cases "storedRun rid ls")
      case None
      with True show ?thesis
        by (simp add: storedStatus_def updateMethodInHistory_storedRun)
    next
      case (Some h)
      show ?thesis
      proof (cases "updateEntry mn u now h")
        case None
        with Some True show ?thesis
          by (simp add: storedStatus_def updateMethodInHistory_storedRun)
      next
        case (Some h')
        with \<open>storedRun rid ls = Some h\<close> True neq updateEntry_find [OF Some, of mn']
        show ?thesis
          by (simp add: storedStatus_def updateMethodInHistory_storedRun)
      qed
    qed
  qed
qed


text \<open>
  Claim C3 as stated fails: a method recorded as \<open>timeout\<close> is \<open>indexing_completed\<close>
  after a merge that carries this status.
\<close>

theorem terminal_status_overwritten:
  "storedStatus ''run-1'' ''basic'' timedOutStore = Some ''timeout'' \<and>
   storedStatus ''run-1'' ''basic''
     (updateMethodInHistory ''run-1'' ''basic'' completedUpdate ''2025-01-01T00:05:10.000Z''
        timedOutStore) = Some ''indexing_completed''"
  by (simp add: timedOutStore_def completedUpdate_def exampleRun_def examplePendingMethod_def
      exampleFile_def pendingMethodResult_def toEntry_def storedStatus_def storedRun_def
      getRunById_def getHistory_def setItem_def updateMethodInHistory_def updateEntry_def
      mergeMethod_def isComplete_def Let_def)

theorem merge_overwrites_status_witness:
  "storedStatus ''run-1'' ''basic'' timedOutStore = Some ''timeout'' \<and>
   storedStatus ''run-1'' ''basic''
     (updateMethodInHistory ''run-1'' ''basic'' timeoutUpdate ''2025-01-01T00:05:10.000Z''
        timedOutStore) = Some ''timeout'' \<and>
   storedStatus ''run-1'' ''vision''
     (updateMethodInHistory ''run-1'' ''basic'' timeoutUpdate ''2025-01-01T00:05:10.000Z''
        timedOutStore) = Some ''indexing_pending''"
proof -
  have a: "storedStatus ''run-1'' ''basic'' timedOutStore = Some ''timeout''"
    and b: "storedStatus ''run-1'' ''vision'' timedOutStore = Some ''indexing_pending''"
    and c: "u_status timeoutUpdate = ''timeout''"
    by (simp_all add: timedOutStore_def timeoutUpdate_def exampleRun_def
        examplePendingMethod_def exampleFile_def pendingMethodResult_def toEntry_def
        storedStatus_def storedRun_def getRunById_def getHistory_def setItem_def)
  from merge_overwrites_status [of "''run-1''" "''basic''" timedOutStore "''timeout''"
      timeoutUpdate "''2025-01-01T00:05:10.000Z''" "''run-1''" "''vision''"]
  show ?thesis
    by (simp add: a b c)
qed

subsection \<open>completedAt is written once\<close>

lemma merge_keeps_completedAt:
  assumes "storedCompletedAt rid' ls = Some c" and "c \<noteq> []"
  shows "storedCompletedAt rid' (updateMethodInHistory rid mn u now ls) = Some c"
proof (cases "rid' = rid")
  case False
  with assms show ?thesis
    by (simp add: storedCompletedAt_def updateMethodInHistory_storedRun)
next
  case True
  from assms True obtain h where h: "storedRun rid ls = Some h" and c: "completedAt h = c"
    by (auto simp: storedCompletedAt_def)
  show ?thesis
  proof (cases "updateEntry mn u now h")
    case None
    with h c True show ?thesis
      by (simp add: storedCompletedAt_def updateMethodInHistory_storedRun)
  next
    case (Some h')
    from updateEntry_completedAt [OF Some] c assms(2) have "completedAt h' = c"
      by simp
    with h Some True show ?thesis
      by (simp add: storedCompletedAt_def updateMethodInHistory_storedRun)
  qed
qed

lemma merges_keep_completedAt:
  "storedCompletedAt rid' ls = Some c \<Longrightarrow> c \<noteq> [] \<Longrightarrow>
   storedCompletedAt rid' (applyMerges ops ls) = Some c"
proof (induction ops arbitrary: ls)
  case Nil
  then show ?case by simp
next
  case (Cons op ops)
  obtain rid mn u now where op: "op = (rid, mn, u, now)"
    by (cases op) auto
  from Cons.prems have "storedCompletedAt rid' (updateMethodInHistory rid mn u now ls) = Some c"
    by (rule merge_keeps_completedAt)
  then have "storedCompletedAt rid' (applyMerges ops (updateMethodInHistory rid mn u now ls)) = Some c"
    using Cons.prems(2) by (rule Cons.IH)
  then show ?case by (simp add: op)
qed

lemma merge_sets_completedAt:
  assumes "storedCompletedAt rid ls = Some []"
  shows "storedCompletedAt rid (updateMethodInHistory rid mn u now ls) =
         Some (if storedStatus rid mn ls \<noteq> None \<and>
                  allComplete rid (updateMethodInHistory rid mn u now ls) then now else [])"
proof -
  from assms obtain h where h: "storedRun rid ls = Some h" and c: "completedAt h = []"
    by (auto simp: storedCompletedAt_def)
  show ?thesis
  proof (cases "updateEntry mn u now h")
    case None
    then have "find (\<lambda>m. method_name m = mn) (methods h) = None"
      by (simp add: updateEntry_None)
    with None h c show ?thesis
      by (simp add: storedCompletedAt_def storedStatus_def updateMethodInHistory_storedRun)
  next
    case (Some h')
    then have "find (\<lambda>m. method_name m = mn) (methods h) \<noteq> None"
      using updateEntry_None [of mn u now h] by simp
    with h Some c updateEntry_completedAt [OF Some] show ?thesis
      by (auto simp: storedCompletedAt_def storedStatus_def allComplete_def
          updateMethodInHistory_storedRun)
  qed
qed

lemma createPendingEntry_completedAt:
  assumes "getHistory ls = Entries H"
  shows "storedCompletedAt (pe_runId p) (createPendingEntry p ls) = Some []"
proof -
  have "createPendingEntry p ls =
        setItem (pendingHistoryEntry p #
                 take 24 (filter (\<lambda>h. runId h \<noteq> pe_runId p) H))"
    using assms by (simp add: createPendingEntry_def Let_def MAX_HISTORY_ITEMS_def)
  then show ?thesis
    by (simp add: storedCompletedAt_def storedRun_entries [OF getHistory_setItem]
        pendingHistoryEntry_def)
qed

text \<open>
  Claim C8. A pending entry is created with \<open>completedAt\<close> unset (the empty text). A
  merge into a run whose \<open>completedAt\<close> is unset sets it to the time of the merge when
  the merge applies and leaves all methods of the run in a final status, and leaves it
  unset when some method is not in a final status. Once \<open>completedAt\<close> is set, no
  sequence of merges changes it.
\<close>

theorem completedAt_write_once:
  "(getHistory ls = Entries H \<longrightarrow>
      storedCompletedAt (pe_runId p) (createPendingEntry p ls) = Some []) \<and>
   (storedCompletedAt rid ls = Some [] \<and> storedStatus rid mn ls \<noteq> None \<and>
    allComplete rid (updateMethodInHistory rid mn u now ls) \<longrightarrow>
      storedCompletedAt rid (updateMethodInHistory rid mn u now ls) = Some now) \<and>
   (storedCompletedAt rid ls = Some [] \<and>
    \<not> allComplete rid (updateMethodInHistory rid mn u now ls) \<longrightarrow>
      storedCompletedAt rid (updateMethodInHistory rid mn u now ls) = Some []) \<and>
   (storedCompletedAt rid' ls = Some c \<and> c \<noteq> [] \<longrightarrow>
      storedCompletedAt rid' (applyMerges ops ls) = Some c)"
  using createPendingEntry_completedAt [of ls H p] merge_sets_completedAt [of rid ls mn u now]
    merges_keep_completedAt [of rid' ls c ops]
  by simp


lemma pendingStore_eval:
  "pendingStore =
     setItem [pendingHistoryEntry (examplePending ''run-2''
       [examplePendingMethod ''basic'' ''indexing_pending'',
        examplePendingMethod ''vision'' ''indexing_pending''])]"
  by (simp add: pendingStore_def createPendingEntry_def getHistory_def Let_def
      MAX_HISTORY_ITEMS_def)

theorem completedAt_write_once_witness:
  "storedCompletedAt ''run-2'' pendingStore = Some [] \<and>
   storedCompletedAt ''run-2'' afterBasicCompleted = Some [] \<and>
   storedCompletedAt ''run-2'' afterVisionTimeout = Some ''2025-01-01T00:05:02.000Z'' \<and>
   storedCompletedAt ''run-2''
     (applyMerges [(''run-2'', ''basic'', timeoutUpdate, ''2025-01-01T00:09:00.000Z'')]
        afterVisionTimeout) = Some ''2025-01-01T00:05:02.000Z''"
proof -
  have p0: "pe_runId (examplePending ''run-2''
       [examplePendingMethod ''basic'' ''indexing_pending'',
        examplePendingMethod ''vision'' ''indexing_pending'']) = ''run-2''"
    by (simp add: examplePending_def)
  have s0: "storedCompletedAt ''run-2'' pendingStore = Some []"
    using completedAt_write_once [of None "[]" "examplePending ''run-2''
       [examplePendingMethod ''basic'' ''indexing_pending'',
        examplePendingMethod ''vision'' ''indexing_pending'']"]
    by (simp add: p0 pendingStore_def getHistory_def)
  have n1: "\<not> allComplete ''run-2'' afterBasicCompleted"
    by (simp add: afterBasicCompleted_def pendingStore_eval completedUpdate_def
        examplePending_def examplePendingMethod_def exampleFile_def pendingMethodResult_def
        pendingHistoryEntry_def storedRun_def allComplete_def getRunById_def getHistory_def
        setItem_def updateMethodInHistory_def updateEntry_def mergeMethod_def isComplete_def
        Let_def)
  have s1: "storedCompletedAt ''run-2'' afterBasicCompleted = Some []"
    using completedAt_write_once [of pendingStore _ _ "''run-2''" "''basic''" completedUpdate
        "''2025-01-01T00:00:45.000Z''"] s0 n1
    by (simp add: afterBasicCompleted_def)
  have f2: "storedStatus ''run-2'' ''vision'' afterBasicCompleted \<noteq> None"
    and a2: "allComplete ''run-2'' afterVisionTimeout"
    by (simp_all add: afterVisionTimeout_def afterBasicCompleted_def pendingStore_eval
        completedUpdate_def timeoutUpdate_def examplePending_def examplePendingMethod_def
        exampleFile_def pendingMethodResult_def pendingHistoryEntry_def storedStatus_def
        storedRun_def allComplete_def getRunById_def getHistory_def setItem_def
        updateMethodInHistory_def updateEntry_def mergeMethod_def isComplete_def Let_def)
  have s2: "storedCompletedAt ''run-2'' afterVisionTimeout = Some ''2025-01-01T00:05:02.000Z''"
    using completedAt_write_once [of afterBasicCompleted _ _ "''run-2''" "''vision''"
        timeoutUpdate "''2025-01-01T00:05:02.000Z''"] s1 f2 a2
    by (simp add: afterVisionTimeout_def)
  have s3: "storedCompletedAt ''run-2''
     (applyMerges [(''run-2'', ''basic'', timeoutUpdate, ''2025-01-01T00:09:00.000Z'')]
        afterVisionTimeout) = Some ''2025-01-01T00:05:02.000Z''"
    using completedAt_write_once [of afterVisionTimeout _ _ _ _ _ _ "''run-2''"
        "''2025-01-01T00:05:02.000Z''"
        "[(''run-2'', ''basic'', timeoutUpdate, ''2025-01-01T00:09:00.000Z'')]"] s2
    by simp
  from s0 s1 s2 s3 show ?thesis by simp
qed

subsection \<open>Export and import\<close>

lemma import_export:
  assumes "getHistory ls = Entries H"
  shows "importHistory (exportHistory ls) ls =
         (if list_all validEntry H then (True, setItem (take MAX_HISTORY_ITEMS H)) else (False, ls))"
proof -
  have "filter (\<lambda>h. runId h \<notin> set (map runId H)) H = []"
    by (rule filter_False) simp
  with assms show ?thesis
    by (simp add: importHistory_def exportHistory_def Let_def)
qed

lemma list_all_update:
  "list_all P xs \<Longrightarrow> P y \<Longrightarrow> list_all P (xs[i := y])"
  by (induction xs arbitrary: i) (auto split: nat.splits)

lemma list_all_take: "list_all P xs \<Longrightarrow> list_all P (take n xs)"
  by (auto simp: list_all_iff dest: in_set_takeD)

lemma reachable_store:
  "reachable ls \<Longrightarrow> \<exists>H. getHistory ls = Entries H \<and> length H \<le> 25 \<and> list_all validEntry H"
proof (induction rule: reachable.induct)
  case reachable_empty
  show ?case by (simp add: getHistory_def)
next
  case (reachable_add ls result)
  then obtain H where H: "getHistory ls = Entries H" and v: "list_all validEntry H"
    by blast
  have "validEntry (toEntry result)"
    using reachable_add.hyps(2) by (simp add: validEntry_def runId_toEntry)
  with v have "list_all validEntry (toEntry result # filter (\<lambda>h. runId h \<noteq> runId result) H)"
    by (simp add: list_all_iff)
  then have "list_all validEntry
      (take MAX_HISTORY_ITEMS (toEntry result # filter (\<lambda>h. runId h \<noteq> runId result) H))"
    by (rule list_all_take)
  then show ?case
    by (simp only: addToHistory_entries [OF H] getHistory_setItem)
       (simp add: MAX_HISTORY_ITEMS_def)
next
  case (reachable_pending ls entry)
  then obtain H where H: "getHistory ls = Entries H" and v: "list_all validEntry H"
    by blast
  have "validEntry (pendingHistoryEntry entry)"
    using reachable_pending.hyps(2) by (simp add: validEntry_def runId_pendingHistoryEntry)
  with v have "list_all validEntry
      (pendingHistoryEntry entry # filter (\<lambda>h. runId h \<noteq> pe_runId entry) H)"
    by (simp add: list_all_iff)
  then have "list_all validEntry (take MAX_HISTORY_ITEMS
      (pendingHistoryEntry entry # filter (\<lambda>h. runId h \<noteq> pe_runId entry) H))"
    by (rule list_all_take)
  then show ?case
    by (simp only: createPendingEntry_entries [OF H] getHistory_setItem)
       (simp add: MAX_HISTORY_ITEMS_def)
next
  case (reachable_merge ls rid methodName update now)
  then obtain H where H: "getHistory ls = Entries H" and n: "length H \<le> 25"
    and v: "list_all validEntry H"
    by blast
  show ?case
  proof (cases "findIndex (\<lambda>h. runId h = rid) H")
    case None
    with H n v show ?thesis
      by (simp add: updateMethodInHistory_def)
  next
    case (Some i)
    from findIndex_Some [OF Some] have lt: "i < length H"
      by simp
    show ?thesis
    proof (cases "updateEntry methodName update now (H ! i)")
      case None
      with Some H n v show ?thesis
        by (simp add: updateMethodInHistory_def)
    next
      case (Some h')
      from v lt have "validEntry (H ! i)"
        by (simp add: list_all_length)
      with updateEntry_runId [OF Some] have "validEntry h'"
        by (simp add: validEntry_def)
      with v have "list_all validEntry (H[i := h'])"
        by (rule list_all_update)
      with H n Some \<open>findIndex (\<lambda>h. runId h = rid) H = Some i\<close> show ?thesis
        by (simp add: updateMethodInHistory_def getHistory_setItem)
    qed
  qed
next
  case (reachable_comparison ls rid ai)
  then obtain H where H: "getHistory ls = Entries H" and n: "length H \<le> 25"
    and v: "list_all validEntry H"
    by blast
  show ?case
  proof (cases "findIndex (\<lambda>h. runId h = rid) H")
    case None
    with H n v show ?thesis
      by (simp add: updateHistoryWithAiComparison_def)
  next
    case (Some i)
    from findIndex_Some [OF Some] have lt: "i < length H"
      by simp
    with v have "validEntry (H ! i)"
      by (simp add: list_all_length)
    then have "validEntry ((H ! i)\<lparr>aiComparison := Some ai\<rparr>)"
      by (simp add: validEntry_def)
    with v have "list_all validEntry (H[i := (H ! i)\<lparr>aiComparison := Some ai\<rparr>])"
      by (rule list_all_update)
    with H n Some show ?thesis
      by (simp add: updateHistoryWithAiComparison_def getHistory_setItem)
  qed
next
  case (reachable_clear ls)
  show ?case by (simp add: clearHistory_def getHistory_def)
next
  case (reachable_import ls json)
  then obtain H where H: "getHistory ls = Entries H" and n: "length H \<le> 25"
    and v: "list_all validEntry H"
    by blast
  show ?case
  proof (cases "\<exists>parsed. json = ValidJson (Entries parsed) \<and> list_all validEntry parsed")
    case False
    then have "snd (importHistory json ls) = ls"
      by (auto simp: importHistory_def split: json_text.splits parsed.splits)
    with H n v show ?thesis by simp
  next
    case True
    then obtain parsed where json: "json = ValidJson (Entries parsed)"
      and pv: "list_all validEntry parsed"
      by blast
    let ?new = "filter (\<lambda>h. runId h \<notin> set (map runId H)) parsed"
    from pv v have "list_all validEntry (?new @ H)"
      by (auto simp: list_all_iff)
    then have "list_all validEntry (take MAX_HISTORY_ITEMS (?new @ H))"
      by (rule list_all_take)
    moreover have "snd (importHistory json ls) = setItem (take MAX_HISTORY_ITEMS (?new @ H))"
      using json pv H by (simp add: importHistory_def Let_def)
    ultimately show ?thesis
      by (simp add: getHistory_setItem MAX_HISTORY_ITEMS_def)
  qed
qed

text \<open>
  Claim C4. Let the store be one that the operations of the history produce from an
  empty storage, with run ids that are not empty. It holds a list \<open>H\<close> of at most 25
  entries. Importing what was just exported succeeds, and afterwards the store holds
  the same list \<open>H\<close>: every entry is preserved, no run id is lost, and there are still
  at most 25 entries.
\<close>

theorem export_import_round_trip:
  assumes "reachable ls"
  shows "\<exists>H. getHistory ls = Entries H \<and>
           fst (importHistory (exportHistory ls) ls) = True \<and>
           getHistory (snd (importHistory (exportHistory ls) ls)) = Entries H \<and>
           length H \<le> 25"
proof -
  from reachable_store [OF assms] obtain H where H: "getHistory ls = Entries H"
    and n: "length H \<le> 25" and v: "list_all validEntry H"
    by blast
  from import_export [OF H] v n
  have "importHistory (exportHistory ls) ls = (True, setItem H)"
    by (simp add: MAX_HISTORY_ITEMS_def)
  with H n show ?thesis
    by (simp add: getHistory_setItem)
qed

theorem export_import_round_trip_witness:
  "reachable pendingStore \<and>
   getHistory pendingStore =
     Entries [pendingHistoryEntry (examplePending ''run-2''
       [examplePendingMethod ''basic'' ''indexing_pending'',
        examplePendingMethod ''vision'' ''indexing_pending''])] \<and>
   fst (importHistory (exportHistory pendingStore) pendingStore) = True \<and>
   getHistory (snd (importHistory (exportHistory pendingStore) pendingStore)) =
     getHistory pendingStore"
proof -
  have r: "reachable pendingStore"
    unfolding pendingStore_def
    by (intro reachable_pending reachable_empty) (simp add: examplePending_def)
  have "\<exists>H. getHistory pendingStore = Entries H \<and>
           fst (importHistory (exportHistory pendingStore) pendingStore) = True \<and>
           getHistory (snd (importHistory (exportHistory pendingStore) pendingStore)) = Entries H \<and>
           length H \<le> 25"
    using export_import_round_trip [OF r] .
  then obtain H where H: "getHistory pendingStore = Entries H"
    and ok: "fst (importHistory (exportHistory pendingStore) pendingStore) = True"
    and same: "getHistory (snd (importHistory (exportHistory pendingStore) pendingStore)) = Entries H"
    by (elim exE conjE)
  have e: "getHistory pendingStore =
     Entries [pendingHistoryEntry (examplePending ''run-2''
       [examplePendingMethod ''basic'' ''indexing_pending'',
        examplePendingMethod ''vision'' ''indexing_pending''])]"
    by (simp only: pendingStore_eval getHistory_setItem)
  from r e ok same H show ?thesis
    by simp
qed

subsection \<open>Reading a degenerate store\<close>

text \<open>
  Claim C10, as amended. When the key is absent, empty or holds a text that is not JSON,
  \<open>getHistory\<close> yields the empty list, \<open>getRunById\<close> yields \<open>null\<close> and
  \<open>getHistorySummaries\<close> the empty list. A text that parses is returned as parsed,
  without a check: when it is an array of entries the two readers return normally, and
  when it is any other JSON value they throw a TypeError.
\<close>

theorem history_reads:
  "(ls = None \<or> ls = Some EmptyString \<or> ls = Some InvalidJson \<longrightarrow>
      getHistory ls = Entries [] \<and> getRunById rid ls = Inr None \<and>
      getHistorySummaries ls = Inr []) \<and>
   (ls = Some (ValidJson v) \<longrightarrow> getHistory ls = v) \<and>
   (getHistory ls = Entries H \<longrightarrow>
      getRunById rid ls = Inr (find (\<lambda>h. runId h = rid) H) \<and>
      getHistorySummaries ls = Inr (map summarize H)) \<and>
   (getHistory ls = NotArray w \<longrightarrow>
      getRunById rid ls = Inl TypeError \<and> getHistorySummaries ls = Inl TypeError)"
proof -
  have degenerate: "getHistory ls = Entries []"
    if "ls = None \<or> ls = Some EmptyString \<or> ls = Some InvalidJson"
    using that by (auto simp: getHistory_def)
  have parsed: "getHistory ls = v" if "ls = Some (ValidJson v)"
    using that by (simp add: getHistory_def)
  have array: "getRunById rid ls = Inr (find (\<lambda>h. runId h = rid) H') \<and>
               getHistorySummaries ls = Inr (map summarize H')"
    if "getHistory ls = Entries H'" for H'
    using that by (simp add: getRunById_def getHistorySummaries_def)
  have other: "getRunById rid ls = Inl TypeError \<and> getHistorySummaries ls = Inl TypeError"
    if "getHistory ls = NotArray w"
    using that by (simp add: getRunById_def getHistorySummaries_def)
  have "getHistory ls = Entries [] \<and> getRunById rid ls = Inr None \<and>
        getHistorySummaries ls = Inr []"
    if "ls = None \<or> ls = Some EmptyString \<or> ls = Some InvalidJson"
    using degenerate [OF that] array [of "[]"] by simp
  with parsed array [of H] other show ?thesis
    by blast
qed

text \<open>
  Claim C10 as stated fails: with the text \<open>{}\<close> under the key, what \<open>getHistory\<close>
  returns is not a list, and \<open>getRunById\<close> and \<open>getHistorySummaries\<close> throw.
\<close>

theorem reads_throw_on_non_array:
  "getHistory (Some (ValidJson (NotArray JObject))) = NotArray JObject \<and>
   getRunById ''run-1'' (Some (ValidJson (NotArray JObject))) = Inl TypeError \<and>
   getHistorySummaries (Some (ValidJson (NotArray JObject))) = Inl TypeError"
  by (simp add: getHistory_def getRunById_def getHistorySummaries_def)

theorem history_reads_witness:
  "getHistory (Some InvalidJson) = Entries [] \<and>
   getRunById ''run-1'' (Some InvalidJson) = Inr None \<and>
   getHistorySummaries (Some InvalidJson) = Inr [] \<and>
   getHistory (Some (ValidJson (NotArray JNull))) = NotArray JNull \<and>
   getRunById ''run-1'' (Some (ValidJson (NotArray JNull))) = Inl TypeError"
  using history_reads [of "Some InvalidJson" "''run-1''" _ "[]"]
    history_reads [of "Some (ValidJson (NotArray JNull))" "''run-1''" "NotArray JNull" _ JNull]
  by simp


subsection \<open>Polling up to the attempt cap\<close>

lemma pollLoop_scripted:
  assumes "a < 150" and "isPending (rf_status f)"
    and "\<forall>k. a < k \<and> k < 150 \<longrightarrow> isPending (statusAt k)"
  shows "pollLoop (scriptedClient statusAt ps) fid f a a =
         (Inr (exampleFileObject (statusAt 150), 150), 150)"
  using assms
proof (induction a arbitrary: f rule: strict_inc_induct)
  case (base i)
  then have i: "i = 149" by simp
  show ?case
    using base.prems(1)
    by (simp add: i pollLoop.simps [of _ _ _ 149] pollLoop.simps [of _ _ _ 150]
        scriptedClient_def MAX_POLL_ATTEMPTS_def)
next
  case (step i)
  have "isPending (rf_status (exampleFileObject (statusAt (Suc i))))"
    using step.prems(2) step.hyps by (simp add: exampleFileObject_def)
  then have "pollLoop (scriptedClient statusAt ps) fid (exampleFileObject (statusAt (Suc i)))
               (Suc i) (Suc i) = (Inr (exampleFileObject (statusAt 150), 150), 150)"
    using step.prems(2) by (intro step.IH) auto
  then show ?case
    using step.hyps step.prems(1)
    by (subst pollLoop.simps) (simp add: scriptedClient_def MAX_POLL_ATTEMPTS_def)
qed

text \<open>
  \<open>benchmarkMethod\<close> returns \<open>timeout\<close> exactly when the upload went through and the
  polling loop ended, without a throw, with 150 attempts made; the status that the last
  attempt fetched plays no part.
\<close>

lemma timeout_only_at_cap:
  assumes "benchmarkMethod client fileBuffer fileName contentType m w = Some (r, w')"
  shows "status r = ''timeout'' \<longleftrightarrow>
         (\<exists>file w1 url w2 finalFile attempts.
            upsertFile client (upsertRequest fileBuffer contentType m
              (BenchmarkKey (mc_name m) (dateNow client w) fileName)) w = (Inr file, w1) \<and>
            rf_uploadUrl file = Some url \<and> url \<noteq> [] \<and>
            fetchPut client url contentType fileBuffer w1 = (Inr (), w2) \<and>
            pollLoop client (rf_id file) file 0 w2 = (Inr (finalFile, attempts), w') \<and>
            MAX_POLL_ATTEMPTS \<le> attempts)"
  using assms
  by (auto simp: benchmarkMethod_def benchmarkMethodTry_def Let_def timeoutResult_def
      failureResult_def completedResult_def caughtResult_def
      split: prod.splits sum.splits option.splits if_splits)

text \<open>
  Claim C1, at the input where the code departs from it: the service reports a pending
  status on the first 149 polls and \<open>indexing_completed\<close> on the 150th. The loop ends with
  that final file object and 150 attempts, and \<open>benchmarkMethod\<close> returns \<open>timeout\<close>.
\<close>

theorem late_completion_reported_as_timeout:
  "pollLoop (scriptedClient lateCompletion []) ''file-1'' (exampleFileObject ''upload_pending'') 0 0 =
     (Inr (exampleFileObject ''indexing_completed'', 150), 150) \<and>
   benchmarkMethod (scriptedClient lateCompletion []) [] ''report.pdf'' ''application/pdf''
     basicMethod 0 =
     Some (timeoutResult basicMethod ''file-1'' 300000, 150) \<and>
   status (timeoutResult basicMethod ''file-1'' 300000) = ''timeout''"
proof -
  have poll: "pollLoop (scriptedClient lateCompletion []) ''file-1''
                (exampleFileObject ''upload_pending'') 0 0 =
              (Inr (exampleFileObject (lateCompletion 150), 150), 150)"
    by (rule pollLoop_scripted)
       (simp_all add: exampleFileObject_def isPending_def lateCompletion_def)
  have c: "upsertFile (scriptedClient lateCompletion []) = (\<lambda>req n. (Inr (exampleFileObject ''upload_pending''), n))"
    "fetchPut (scriptedClient lateCompletion []) = (\<lambda>url contentType body n. (Inr (), n))"
    "dateNow (scriptedClient lateCompletion []) = (\<lambda>n. 2000 * int n)"
    by (simp_all add: scriptedClient_def)
  have f: "rf_uploadUrl (exampleFileObject ''upload_pending'') = Some ''https://upload.example/file-1''"
    "rf_id (exampleFileObject ''upload_pending'') = ''file-1''"
    by (simp_all add: exampleFileObject_def)
  show ?thesis
    using poll
    by (simp add: benchmarkMethod_def benchmarkMethodTry_def c f Let_def MAX_POLL_ATTEMPTS_def
        lateCompletion_def timeoutResult_def)
qed


subsection \<open>Thrown errors\<close>

lemma benchmarkMethod_caught:
  "benchmarkMethodTry client fileBuffer fileName contentType m (dateNow client w)
     (BenchmarkKey (mc_name m) (dateNow client w) fileName) w = Some (Inl e, w') \<Longrightarrow>
   benchmarkMethod client fileBuffer fileName contentType m w =
     Some (caughtResult m e (dateNow client w' - dateNow client w), w')"
  by (simp add: benchmarkMethod_def Let_def)

lemma benchmarkMethod_cases:
  assumes "benchmarkMethod client fileBuffer fileName contentType m w = Some (r, w')"
  shows "(\<exists>fid ms. r = timeoutResult m fid ms) \<or>
         (\<exists>fid f ms. r = failureResult m fid f ms \<and>
            (rf_status f = ''indexing_failed'' \<or> rf_status f = ''upload_failed'')) \<or>
         (\<exists>fid f ms ps w3. r = completedResult m fid f ms ps \<and>
            getAllPassages client fid w3 = Some (Inr ps, w')) \<or>
         (\<exists>e ms. r = caughtResult m e ms)"
  using assms
  by (simp add: benchmarkMethod_def benchmarkMethodTry_def Let_def
      split: prod.splits sum.splits option.splits if_splits) blast+

lemma benchmarkMethod_method_name:
  assumes "benchmarkMethod client fileBuffer fileName contentType m w = Some (r, w')"
  shows "method_name r = mc_name m"
  using benchmarkMethod_cases [OF assms]
  by (auto simp: timeoutResult_def failureResult_def completedResult_def caughtResult_def)

lemma runMethods_names:
  "runMethods client fileBuffer fileName contentType ms acc w = Some (rs, w') \<Longrightarrow>
   map method_name rs = map method_name acc @ map mc_name ms"
proof (induction ms arbitrary: acc w)
  case Nil
  then show ?case by simp
next
  case (Cons m ms)
  from Cons.prems obtain r w1 where
    r: "benchmarkMethod client fileBuffer fileName contentType m w = Some (r, w1)" and
    rest: "runMethods client fileBuffer fileName contentType ms (acc @ [r]) w1 = Some (rs, w')"
    by (auto split: option.splits)
  from Cons.IH [OF rest] benchmarkMethod_method_name [OF r] show ?case
    by simp
qed

lemma runMethods_all_fail:
  assumes "\<forall>req w. \<exists>e w'. upsertFile client req w = (Inl e, w')"
  shows "\<exists>rs w'. runMethods client fileBuffer fileName contentType ms acc w = Some (acc @ rs, w') \<and>
           map status rs = replicate (length ms) ''indexing_failed''"
proof (induction ms arbitrary: acc w)
  case Nil
  then show ?case by simp
next
  case (Cons m ms)
  from assms obtain e w1 where
    "upsertFile client (upsertRequest fileBuffer contentType m
       (BenchmarkKey (mc_name m) (dateNow client w) fileName)) w = (Inl e, w1)"
    by blast
  then have r: "benchmarkMethod client fileBuffer fileName contentType m w =
      Some (caughtResult m e (dateNow client w1 - dateNow client w), w1)"
    by (simp add: benchmarkMethod_def benchmarkMethodTry_def Let_def)
  from Cons.IH [of "acc @ [caughtResult m e (dateNow client w1 - dateNow client w)]" w1]
  obtain rs w' where
    "runMethods client fileBuffer fileName contentType ms
       (acc @ [caughtResult m e (dateNow client w1 - dateNow client w)]) w1 =
     Some ((acc @ [caughtResult m e (dateNow client w1 - dateNow client w)]) @ rs, w')"
    and "map status rs = replicate (length ms) ''indexing_failed''"
    by blast
  then show ?case
    using r
    by (intro exI [of _ "caughtResult m e (dateNow client w1 - dateNow client w) # rs"]
        exI [of _ w']) (simp add: caughtResult_def)
qed

lemma pollLoop_afterPolls:
  "afterPolls client fid k created w = Some (polled, w') \<Longrightarrow> a + k \<le> MAX_POLL_ATTEMPTS \<Longrightarrow>
   pollLoop client fid created a w = pollLoop client fid polled (a + k) w'"
proof (induction k arbitrary: created w a)
  case 0
  then show ?case by simp
next
  case (Suc k)
  from Suc.prems(1) obtain updated w1 where p: "isPending (rf_status created)"
    and g: "getFile client fid (sleep client POLL_INTERVAL_MS w) = (Inr updated, w1)"
    and rest: "afterPolls client fid k updated w1 = Some (polled, w')"
    by (auto split: if_splits prod.splits sum.splits)
  from Suc.prems(2) have lt: "a < MAX_POLL_ATTEMPTS" and le: "(a + 1) + k \<le> MAX_POLL_ATTEMPTS"
    by simp_all
  have "pollLoop client fid created a w = pollLoop client fid updated (a + 1) w1"
    using p g lt by (subst pollLoop.simps) simp
  also have "\<dots> = pollLoop client fid polled (a + 1 + k) w'"
    by (rule Suc.IH [OF rest le])
  finally show ?case by simp
qed

lemma getAllPassagesLoop_afterPages:
  "afterPages client fid k token w = Some (raw, token', w') \<Longrightarrow>
   getAllPassagesLoop client fid 200 acc token w =
     getAllPassagesLoop client fid 200 (acc @ map toPassage raw) token' w'"
proof (induction k arbitrary: token w acc raw)
  case 0
  then show ?case by simp
next
  case (Suc k)
  from Suc.prems obtain result w1 later where
    l: "listFilePassages client fid 200 token w = (Inr result, w1)"
    and t: "truthy (lr_nextToken result)"
    and rest: "afterPages client fid k (lr_nextToken result) w1 = Some (later, token', w')"
    and raw: "raw = lr_passages result @ later"
    by (auto split: if_splits prod.splits sum.splits option.splits)
  have "getAllPassagesLoop client fid 200 acc token w =
        getAllPassagesLoop client fid 200 (acc @ map toPassage (lr_passages result))
          (lr_nextToken result) w1"
    using l t by (subst getAllPassagesLoop.simps) simp
  also have "\<dots> = getAllPassagesLoop client fid 200
      ((acc @ map toPassage (lr_passages result)) @ map toPassage later) token' w'"
    by (rule Suc.IH [OF rest])
  finally show ?case
    by (simp add: raw)
qed

lemma getAllPassages_throws:
  assumes "afterPages client fid j None w = Some (raw, token, w1)"
    and "listFilePassages client fid 200 token w1 = (Inl e, w2)"
  shows "getAllPassages client fid w = Some (Inl e, w2)"
proof -
  have "getAllPassages client fid w = getAllPassagesLoop client fid 200 (map toPassage raw) token w1"
    unfolding getAllPassages_def
    using getAllPassagesLoop_afterPages [OF assms(1), of "[]"] by simp
  also have "\<dots> = Some (Inl e, w2)"
    using assms(2) by (subst getAllPassagesLoop.simps) simp
  finally show ?thesis .
qed

lemma getAllPassages_returns:
  assumes "afterPages client fid j None w = Some (raw, token, w1)"
    and "listFilePassages client fid 200 token w1 = (Inr result, w2)"
    and "\<not> truthy (lr_nextToken result)"
  shows "getAllPassages client fid w = Some (Inr (map toPassage (raw @ lr_passages result)), w2)"
proof -
  have "getAllPassages client fid w = getAllPassagesLoop client fid 200 (map toPassage raw) token w1"
    unfolding getAllPassages_def
    using getAllPassagesLoop_afterPages [OF assms(1), of "[]"] by simp
  also have "\<dots> = Some (Inr (map toPassage (raw @ lr_passages result)), w2)"
    using assms(2,3) by (subst getAllPassagesLoop.simps) simp
  finally show ?thesis .
qed

lemma pollLoop_throws:
  assumes "afterPolls client fid k created w = Some (polled, w1)"
    and "k < MAX_POLL_ATTEMPTS" and "isPending (rf_status polled)"
    and "getFile client fid (sleep client POLL_INTERVAL_MS w1) = (Inl e, w2)"
  shows "pollLoop client fid created 0 w = (Inl e, w2)"
proof -
  have "pollLoop client fid created 0 w = pollLoop client fid polled k w1"
    using pollLoop_afterPolls [OF assms(1), of 0] assms(2) by simp
  also have "\<dots> = (Inl e, w2)"
    using assms(2,3,4) by (subst pollLoop.simps) simp
  finally show ?thesis .
qed

lemma pollLoop_settles:
  assumes "afterPolls client fid k created w = Some (polled, w1)"
    and "k < MAX_POLL_ATTEMPTS" and "\<not> isPending (rf_status polled)"
  shows "pollLoop client fid created 0 w = (Inr (polled, k), w1)"
proof -
  have "pollLoop client fid created 0 w = pollLoop client fid polled k w1"
    using pollLoop_afterPolls [OF assms(1), of 0] assms(2) by simp
  also have "\<dots> = (Inr (polled, k), w1)"
    using assms(3) by (subst pollLoop.simps) simp
  finally show ?thesis .
qed

text \<open>
  Claim C9. \<open>benchmarkMethod\<close> returns the result of its \<open>catch\<close> block, with status
  \<open>indexing_failed\<close>, whenever a call inside its \<open>try\<close> block throws: when
  \<open>upsertFile\<close> throws; when the file comes without an upload URL; when the upload
  throws; when, after any number of answered polls below the cap, the next \<open>getFile\<close>
  throws; and when, the polls having ended with a status that is neither pending nor
  failed, the listing of a page of passages throws after any number of listed pages.
  The \<open>failedReason\<close> is the message of a thrown \<open>Error\<close> and the text of any other
  thrown value. \<open>runBenchmark\<close> returns one result per configured method, in order,
  and with a service whose \<open>upsertFile\<close> always throws it still returns, with three
  results of status \<open>indexing_failed\<close>.
\<close>

theorem thrown_errors_become_indexing_failed:
  "(upsertFile client (upsertRequest fileBuffer contentType m
       (BenchmarkKey (mc_name m) (dateNow client w) fileName)) w = (Inl e, w1) \<longrightarrow>
      benchmarkMethod client fileBuffer fileName contentType m w =
        Some (caughtResult m e (dateNow client w1 - dateNow client w), w1)) \<and>
   (upsertFile client (upsertRequest fileBuffer contentType m
       (BenchmarkKey (mc_name m) (dateNow client w) fileName)) w = (Inr created, w1) \<and>
    \<not> truthy (rf_uploadUrl created) \<longrightarrow>
      benchmarkMethod client fileBuffer fileName contentType m w =
        Some (caughtResult m (Error ''No uploadUrl returned from upsertFile'')
                (dateNow client w1 - dateNow client w), w1)) \<and>
   (upsertFile client (upsertRequest fileBuffer contentType m
       (BenchmarkKey (mc_name m) (dateNow client w) fileName)) w = (Inr created, w1) \<and>
    rf_uploadUrl created = Some url \<and> url \<noteq> [] \<and>
    fetchPut client url contentType fileBuffer w1 = (Inl e, w2) \<longrightarrow>
      benchmarkMethod client fileBuffer fileName contentType m w =
        Some (caughtResult m e (dateNow client w2 - dateNow client w), w2)) \<and>
   (upsertFile client (upsertRequest fileBuffer contentType m
       (BenchmarkKey (mc_name m) (dateNow client w) fileName)) w = (Inr created, w1) \<and>
    rf_uploadUrl created = Some url \<and> url \<noteq> [] \<and>
    fetchPut client url contentType fileBuffer w1 = (Inr u, w2) \<and>
    afterPolls client (rf_id created) k created w2 = Some (polled, w3) \<and> k < 150 \<and>
    isPending (rf_status polled) \<and>
    getFile client (rf_id created) (sleep client 2000 w3) = (Inl e, w4) \<longrightarrow>
      benchmarkMethod client fileBuffer fileName contentType m w =
        Some (caughtResult m e (dateNow client w4 - dateNow client w), w4)) \<and>
   (upsertFile client (upsertRequest fileBuffer contentType m
       (BenchmarkKey (mc_name m) (dateNow client w) fileName)) w = (Inr created, w1) \<and>
    rf_uploadUrl created = Some url \<and> url \<noteq> [] \<and>
    fetchPut client url contentType fileBuffer w1 = (Inr u, w2) \<and>
    afterPolls client (rf_id created) k created w2 = Some (polled, w3) \<and> k < 150 \<and>
    \<not> isPending (rf_status polled) \<and>
    rf_status polled \<noteq> ''indexing_failed'' \<and> rf_status polled \<noteq> ''upload_failed'' \<and>
    afterPages client (rf_id created) j None w3 = Some (raw, token, w4) \<and>
    listFilePassages client (rf_id created) 200 token w4 = (Inl e, w5) \<longrightarrow>
      benchmarkMethod client fileBuffer fileName contentType m w =
        Some (caughtResult m e (dateNow client w5 - dateNow client w), w5)) \<and>
   status (caughtResult m e ms) = ''indexing_failed'' \<and>
   failedReason (caughtResult m (Error message) ms) = Some message \<and>
   failedReason (caughtResult m (Thrown thrown) ms) = Some thrown \<and>
   (runBenchmark client rid fileBuffer fileName contentType w = Some (res, w'') \<longrightarrow>
      map method_name (methods res) = [''basic'', ''vision'', ''landing-ai'']) \<and>
   ((\<forall>req w. \<exists>e w'. upsertFile client req w = (Inl e, w')) \<longrightarrow>
      (\<exists>res w'. runBenchmark client rid fileBuffer fileName contentType w = Some (res, w') \<and>
         map status (methods res) =
           [''indexing_failed'', ''indexing_failed'', ''indexing_failed'']))"
proof (intro conjI impI)
  assume "upsertFile client (upsertRequest fileBuffer contentType m
       (BenchmarkKey (mc_name m) (dateNow client w) fileName)) w = (Inl e, w1)"
  then show "benchmarkMethod client fileBuffer fileName contentType m w =
        Some (caughtResult m e (dateNow client w1 - dateNow client w), w1)"
    by (simp add: benchmarkMethod_def benchmarkMethodTry_def Let_def)
next
  assume "upsertFile client (upsertRequest fileBuffer contentType m
       (BenchmarkKey (mc_name m) (dateNow client w) fileName)) w = (Inr created, w1) \<and>
    \<not> truthy (rf_uploadUrl created)"
  then show "benchmarkMethod client fileBuffer fileName contentType m w =
        Some (caughtResult m (Error ''No uploadUrl returned from upsertFile'')
                (dateNow client w1 - dateNow client w), w1)"
    by (cases "rf_uploadUrl created")
       (simp_all add: benchmarkMethod_def benchmarkMethodTry_def Let_def)
next
  assume "upsertFile client (upsertRequest fileBuffer contentType m
       (BenchmarkKey (mc_name m) (dateNow client w) fileName)) w = (Inr created, w1) \<and>
    rf_uploadUrl created = Some url \<and> url \<noteq> [] \<and>
    fetchPut client url contentType fileBuffer w1 = (Inl e, w2)"
  then show "benchmarkMethod client fileBuffer fileName contentType m w =
        Some (caughtResult m e (dateNow client w2 - dateNow client w), w2)"
    by (simp add: benchmarkMethod_def benchmarkMethodTry_def Let_def)
next
  assume a: "upsertFile client (upsertRequest fileBuffer contentType m
       (BenchmarkKey (mc_name m) (dateNow client w) fileName)) w = (Inr created, w1) \<and>
    rf_uploadUrl created = Some url \<and> url \<noteq> [] \<and>
    fetchPut client url contentType fileBuffer w1 = (Inr u, w2) \<and>
    afterPolls client (rf_id created) k created w2 = Some (polled, w3) \<and> k < 150 \<and>
    isPending (rf_status polled) \<and>
    getFile client (rf_id created) (sleep client 2000 w3) = (Inl e, w4)"
  then have "pollLoop client (rf_id created) created 0 w2 = (Inl e, w4)"
    by (intro pollLoop_throws [of client "rf_id created" k created w2 polled w3])
       (simp_all add: MAX_POLL_ATTEMPTS_def POLL_INTERVAL_MS_def)
  with a show "benchmarkMethod client fileBuffer fileName contentType m w =
        Some (caughtResult m e (dateNow client w4 - dateNow client w), w4)"
    by (simp add: benchmarkMethod_def benchmarkMethodTry_def Let_def)
next
  assume a: "upsertFile client (upsertRequest fileBuffer contentType m
       (BenchmarkKey (mc_name m) (dateNow client w) fileName)) w = (Inr created, w1) \<and>
    rf_uploadUrl created = Some url \<and> url \<noteq> [] \<and>
    fetchPut client url contentType fileBuffer w1 = (Inr u, w2) \<and>
    afterPolls client (rf_id created) k created w2 = Some (polled, w3) \<and> k < 150 \<and>
    \<not> isPending (rf_status polled) \<and>
    rf_status polled \<noteq> ''indexing_failed'' \<and> rf_status polled \<noteq> ''upload_failed'' \<and>
    afterPages client (rf_id created) j None w3 = Some (raw, token, w4) \<and>
    listFilePassages client (rf_id created) 200 token w4 = (Inl e, w5)"
  then have p: "pollLoop client (rf_id created) created 0 w2 = (Inr (polled, k), w3)"
    by (intro pollLoop_settles) (simp_all add: MAX_POLL_ATTEMPTS_def)
  from a have g: "getAllPassages client (rf_id created) w3 = Some (Inl e, w5)"
    by (intro getAllPassages_throws [of client "rf_id created" j w3 raw token w4]) simp_all
  from a p g show "benchmarkMethod client fileBuffer fileName contentType m w =
        Some (caughtResult m e (dateNow client w5 - dateNow client w), w5)"
    by (simp add: benchmarkMethod_def benchmarkMethodTry_def Let_def MAX_POLL_ATTEMPTS_def)
next
  show "status (caughtResult m e ms) = ''indexing_failed''"
    by (simp add: caughtResult_def)
next
  show "failedReason (caughtResult m (Error message) ms) = Some message"
    by (simp add: caughtResult_def errorText_def)
next
  show "failedReason (caughtResult m (Thrown thrown) ms) = Some thrown"
    by (simp add: caughtResult_def errorText_def)
next
  assume "runBenchmark client rid fileBuffer fileName contentType w = Some (res, w'')"
  then obtain rs where
    "runMethods client fileBuffer fileName contentType METHODS [] w = Some (rs, w'')"
    and "methods res = rs"
    by (auto simp: runBenchmark_def split: option.splits)
  with runMethods_names [of client fileBuffer fileName contentType METHODS "[]" w rs w'']
  show "map method_name (methods res) = [''basic'', ''vision'', ''landing-ai'']"
    by (simp add: METHODS_def)
next
  assume "\<forall>req w. \<exists>e w'. upsertFile client req w = (Inl e, w')"
  from runMethods_all_fail [OF this, of fileBuffer fileName contentType METHODS "[]" w]
  obtain rs w' where
    "runMethods client fileBuffer fileName contentType METHODS [] w = Some (rs, w')"
    and "map status rs = replicate (length METHODS) ''indexing_failed''"
    by auto
  then show "\<exists>res w'. runBenchmark client rid fileBuffer fileName contentType w = Some (res, w') \<and>
         map status (methods res) =
           [''indexing_failed'', ''indexing_failed'', ''indexing_failed'']"
    by (simp add: runBenchmark_def METHODS_def numeral_3_eq_3)
qed

theorem thrown_errors_become_indexing_failed_witness:
  "benchmarkMethod (failingClient (Error ''network down'')) [] ''report.pdf'' ''application/pdf''
     basicMethod 0 = Some (caughtResult basicMethod (Error ''network down'') 2000, 1) \<and>
   status (caughtResult basicMethod (Error ''network down'') 2000) = ''indexing_failed'' \<and>
   failedReason (caughtResult basicMethod (Error ''network down'') 2000) = Some ''network down'' \<and>
   benchmarkMethod noUrlClient [] ''report.pdf'' ''application/pdf'' basicMethod 0 =
     Some (caughtResult basicMethod (Error ''No uploadUrl returned from upsertFile'') 0, 0) \<and>
   benchmarkMethod (uploadFailClient (Thrown ''socket closed'')) [] ''report.pdf''
     ''application/pdf'' basicMethod 0 =
     Some (caughtResult basicMethod (Thrown ''socket closed'') 2000, 1) \<and>
   failedReason (caughtResult basicMethod (Thrown ''socket closed'') 2000) = Some ''socket closed'' \<and>
   benchmarkMethod pollFailClient [] ''report.pdf'' ''application/pdf'' basicMethod 0 =
     Some (caughtResult basicMethod (Error ''connection reset'') 6000, 3) \<and>
   benchmarkMethod secondPageFailClient [] ''report.pdf'' ''application/pdf'' basicMethod 0 =
     Some (caughtResult basicMethod (Thrown ''rate limited'') 2000, 1) \<and>
   (\<exists>res w'. runBenchmark (failingClient (Error ''network down'')) ''run-1'' [] ''report.pdf''
        ''application/pdf'' 0 = Some (res, w') \<and>
      map method_name (methods res) = [''basic'', ''vision'', ''landing-ai''] \<and>
      map status (methods res) = [''indexing_failed'', ''indexing_failed'', ''indexing_failed''])"
proof -
  let ?fc = "failingClient (Error ''network down'')"
  let ?uc = "uploadFailClient (Thrown ''socket closed'')"
  let ?pending = "exampleFileObject ''indexing_pending''"
  let ?done = "exampleFileObject ''indexing_completed''"
  have fc: "upsertFile ?fc req n = (Inl (Error ''network down''), n + 1)"
    "dateNow ?fc n = 2000 * int n" for req n
    by (simp_all add: failingClient_def scriptedClient_def)
  have nc: "upsertFile noUrlClient req n =
      (Inr ((exampleFileObject ''upload_pending'')\<lparr>rf_uploadUrl := None\<rparr>), n)"
    "dateNow noUrlClient n = 2000 * int n" for req n
    by (simp_all add: noUrlClient_def scriptedClient_def)
  have uc: "upsertFile ?uc req n = (Inr (exampleFileObject ''upload_pending''), n)"
    "fetchPut ?uc url ct body n = (Inl (Thrown ''socket closed''), n + 1)"
    "dateNow ?uc n = 2000 * int n" for req n url ct body
    by (simp_all add: uploadFailClient_def scriptedClient_def)
  have pc: "upsertFile pollFailClient req n = (Inr (exampleFileObject ''upload_pending''), n)"
    "fetchPut pollFailClient url ct body n = (Inr (), n)"
    "sleep pollFailClient d n = n"
    "getFile pollFailClient fid n =
       (if n < 2 then (Inr ?pending, n + 1) else (Inl (Error ''connection reset''), n + 1))"
    "dateNow pollFailClient n = 2000 * int n" for req n url ct body d fid
    by (simp_all add: pollFailClient_def scriptedClient_def)
  have sc: "upsertFile secondPageFailClient req n = (Inr (exampleFileObject ''upload_pending''), n)"
    "fetchPut secondPageFailClient url ct body n = (Inr (), n)"
    "sleep secondPageFailClient d n = n"
    "getFile secondPageFailClient fid n = (Inr ?done, n + 1)"
    "listFilePassages secondPageFailClient fid l tok n =
       (if tok = None then (Inr \<lparr>lr_passages = twoPassages, lr_nextToken = Some ''page-2''\<rparr>, n)
        else (Inl (Thrown ''rate limited''), n))"
    "dateNow secondPageFailClient n = 2000 * int n" for req n url ct body d fid l tok
    by (simp_all add: secondPageFailClient_def scriptedClient_def immediately_def)
  have f: "rf_uploadUrl (exampleFileObject st) = Some ''https://upload.example/file-1''"
    "rf_id (exampleFileObject st) = ''file-1''"
    "rf_status (exampleFileObject st) = st" for st
    by (simp_all add: exampleFileObject_def)
  have all: "\<forall>req w. \<exists>e w'. upsertFile ?fc req w = (Inl e, w')"
    by (simp add: fc)
  note t1 = thrown_errors_become_indexing_failed [where client = ?fc and fileBuffer = "[]"
      and contentType = "''application/pdf''" and m = basicMethod and w = 0
      and fileName = "''report.pdf''" and e = "Error ''network down''" and ?w1.0 = 1
      and ms = 2000 and message = "''network down''" and rid = "''run-1''"]
  note t2 = thrown_errors_become_indexing_failed [where client = noUrlClient and fileBuffer = "[]"
      and contentType = "''application/pdf''" and m = basicMethod and w = 0
      and fileName = "''report.pdf''" and ?w1.0 = 0
      and created = "(exampleFileObject ''upload_pending'')\<lparr>rf_uploadUrl := None\<rparr>"]
  note t3 = thrown_errors_become_indexing_failed [where client = ?uc and fileBuffer = "[]"
      and contentType = "''application/pdf''" and m = basicMethod and w = 0
      and fileName = "''report.pdf''" and e = "Thrown ''socket closed''" and ?w1.0 = 0
      and created = "exampleFileObject ''upload_pending''"
      and url = "''https://upload.example/file-1''" and ?w2.0 = 1
      and ms = 2000 and thrown = "''socket closed''"]
  note t4 = thrown_errors_become_indexing_failed [where client = pollFailClient and fileBuffer = "[]"
      and contentType = "''application/pdf''" and m = basicMethod and w = 0
      and fileName = "''report.pdf''" and e = "Error ''connection reset''" and ?w1.0 = 0
      and created = "exampleFileObject ''upload_pending''"
      and url = "''https://upload.example/file-1''" and ?w2.0 = 0 and u = "()"
      and k = "Suc (Suc 0)" and polled = ?pending and ?w3.0 = 2 and ?w4.0 = 3]
  note t5 = thrown_errors_become_indexing_failed [where client = secondPageFailClient and fileBuffer = "[]"
      and contentType = "''application/pdf''" and m = basicMethod and w = 0
      and fileName = "''report.pdf''" and e = "Thrown ''rate limited''" and ?w1.0 = 0
      and created = "exampleFileObject ''upload_pending''"
      and url = "''https://upload.example/file-1''" and ?w2.0 = 0 and u = "()"
      and k = "Suc 0" and polled = ?done and ?w3.0 = 1 and j = "Suc 0" and raw = twoPassages
      and token = "Some ''page-2''" and ?w4.0 = 1 and ?w5.0 = 1]
  have a: "benchmarkMethod ?fc [] ''report.pdf'' ''application/pdf'' basicMethod 0 =
      Some (caughtResult basicMethod (Error ''network down'') 2000, 1)"
    using t1 by (simp add: fc)
  have b: "status (caughtResult basicMethod (Error ''network down'') 2000) = ''indexing_failed''"
    "failedReason (caughtResult basicMethod (Error ''network down'') 2000) = Some ''network down''"
    using t1 by simp_all
  have c: "benchmarkMethod noUrlClient [] ''report.pdf'' ''application/pdf'' basicMethod 0 =
      Some (caughtResult basicMethod (Error ''No uploadUrl returned from upsertFile'') 0, 0)"
    using t2 by (simp add: nc)
  have d: "benchmarkMethod ?uc [] ''report.pdf'' ''application/pdf'' basicMethod 0 =
      Some (caughtResult basicMethod (Thrown ''socket closed'') 2000, 1)"
    "failedReason (caughtResult basicMethod (Thrown ''socket closed'') 2000) = Some ''socket closed''"
    using t3 by (simp_all add: uc f)
  have p: "benchmarkMethod pollFailClient [] ''report.pdf'' ''application/pdf'' basicMethod 0 =
      Some (caughtResult basicMethod (Error ''connection reset'') 6000, 3)"
    using t4 by (simp add: pc f isPending_def)
  have l: "benchmarkMethod secondPageFailClient [] ''report.pdf'' ''application/pdf'' basicMethod 0 =
      Some (caughtResult basicMethod (Thrown ''rate limited'') 2000, 1)"
    using t5 by (simp add: sc f isPending_def)
  have "\<exists>res w'. runBenchmark ?fc ''run-1'' [] ''report.pdf'' ''application/pdf'' 0 =
        Some (res, w') \<and>
      map status (methods res) = [''indexing_failed'', ''indexing_failed'', ''indexing_failed'']"
    using t1 all by simp
  then obtain res w' where run: "runBenchmark ?fc ''run-1'' [] ''report.pdf''
        ''application/pdf'' 0 = Some (res, w')"
    and st: "map status (methods res) = [''indexing_failed'', ''indexing_failed'', ''indexing_failed'']"
    by (elim exE conjE)
  from thrown_errors_become_indexing_failed [where client = ?fc and fileBuffer = "[]"
      and contentType = "''application/pdf''" and w = 0
      and fileName = "''report.pdf''" and rid = "''run-1''" and res = res and w'' = w']
    run
  have nm: "map method_name (methods res) = [''basic'', ''vision'', ''landing-ai'']"
    by simp
  from run st nm have "\<exists>res w'. runBenchmark ?fc ''run-1'' [] ''report.pdf''
        ''application/pdf'' 0 = Some (res, w') \<and>
      map method_name (methods res) = [''basic'', ''vision'', ''landing-ai''] \<and>
      map status (methods res) = [''indexing_failed'', ''indexing_failed'', ''indexing_failed'']"
    by (intro exI conjI)
  with a b c d p l show ?thesis
    by (intro conjI)
qed

subsection \<open>Metrics and status\<close>

lemma getFileStatus_cases:
  assumes "getFileStatus client fid sa w = Some (Inr resp, w')"
  shows "(fs_status resp \<noteq> ''indexing_completed'' \<and> fs_passageCount resp = None \<and>
          fs_contentCharsTotal resp = None \<and> fs_metaBreakdown resp = None) \<or>
         (fs_status resp = ''indexing_completed'' \<and>
          (\<exists>ps w1. getAllPassages client fid w1 = Some (Inr ps, w') \<and>
             fs_passageCount resp = Some (length ps) \<and>
             fs_contentCharsTotal resp = Some (computeContentCharsTotal ps) \<and>
             fs_metaBreakdown resp = Some (computeMetaBreakdown ps)))"
  using assms
  by (auto simp: getFileStatus_def Let_def split: prod.splits sum.splits option.splits if_splits)

lemma map_of_bumpOwn:
  "map_of (bumpOwn k m) k' =
     (if k' = k then Some (case map_of m k of None \<Rightarrow> firstTally k | Some v \<Rightarrow> plusOne v)
      else map_of m k')"
  by (induction m) auto

lemma map_of_bump:
  "map_of (bump k m) k' =
     (if k' = k \<and> k \<noteq> ''__proto__''
      then Some (case map_of m k of None \<Rightarrow> firstTally k | Some v \<Rightarrow> plusOne v)
      else map_of m k')"
  by (simp add: bump_def map_of_bumpOwn)

lemma countPassages_snoc:
  "countPassages (ps @ [p]) = countPassage (countPassages ps) p"
  by (simp add: countPassages_def)

lemma byType_counts:
  "map_of (c_byType (countPassages ps)) k =
     (let n = length (filter (\<lambda>p. meta_type (meta p) = Some k) ps)
      in if k = [] \<or> k = ''__proto__'' \<or> n = 0 then None
         else if k \<in> set objectPrototypeNames then Some (InheritedText k n)
         else Some (Count n))"
proof (induction ps rule: rev_induct)
  case Nil
  show ?case by (simp add: countPassages_def)
next
  case (snoc p ps)
  show ?case
  proof (cases "meta_type (meta p)")
    case None
    with snoc show ?thesis
      by (simp add: countPassages_snoc countPassage_def)
  next
    case (Some t)
    with snoc show ?thesis
      by (cases "k = t")
         (auto simp: countPassages_snoc countPassage_def map_of_bump Let_def firstTally_def)
  qed
qed

lemma bySubtype_counts:
  "map_of (c_bySubtype (countPassages ps)) k =
     (let n = length (filter (\<lambda>p. meta_subtype (meta p) = Some k) ps)
      in if k = [] \<or> k = ''__proto__'' \<or> n = 0 then None
         else if k \<in> set objectPrototypeNames then Some (InheritedText k n)
         else Some (Count n))"
proof (induction ps rule: rev_induct)
  case Nil
  show ?case by (simp add: countPassages_def)
next
  case (snoc p ps)
  show ?case
  proof (cases "meta_subtype (meta p)")
    case None
    with snoc show ?thesis
      by (simp add: countPassages_snoc countPassage_def)
  next
    case (Some t)
    with snoc show ?thesis
      by (cases "k = t")
         (auto simp: countPassages_snoc countPassage_def map_of_bump Let_def firstTally_def)
  qed
qed

lemma pageNumbers_collected:
  "c_pageNumbers (countPassages ps) = set (List.map_filter (\<lambda>p. pageNumber (meta p)) ps)"
proof (induction ps rule: rev_induct)
  case Nil
  show ?case by (simp add: countPassages_def List.map_filter_simps)
next
  case (snoc p ps)
  then show ?case
    by (cases "pageNumber (meta p)")
       (simp_all add: countPassages_snoc countPassage_def List.map_filter_def)
qed

lemma foldl_lengths:
  "foldl (\<lambda>sum p. sum + length (content p)) a ps = a + sum_list (map (\<lambda>p. length (content p)) ps)"
  by (induction ps arbitrary: a) simp_all

lemma contentCharsTotal_sum:
  "computeContentCharsTotal ps = sum_list (map (\<lambda>p. length (content p)) ps)"
  by (simp add: computeContentCharsTotal_def foldl_lengths)

lemma fst_bumpOwn:
  "map fst (bumpOwn k m) = (if k \<in> fst ` set m then map fst m else map fst m @ [k])"
  by (induction m) (force simp: image_iff)+

lemma distinct_bump:
  "distinct (map fst m) \<Longrightarrow> distinct (map fst (bump k m))"
  by (auto simp: bump_def fst_bumpOwn)

lemma distinct_keys:
  "distinct (map fst (c_byType (countPassages ps))) \<and>
   distinct (map fst (c_bySubtype (countPassages ps)))"
proof (induction ps rule: rev_induct)
  case Nil
  show ?case by (simp add: countPassages_def)
next
  case (snoc p ps)
  then show ?case
    by (auto simp: countPassages_snoc countPassage_def distinct_bump split: option.splits)
qed

lemma breakdown_of_passages:
  "pageCount (computeMetaBreakdown ps) =
     card (set (List.map_filter (\<lambda>p. pageNumber (meta p)) ps)) \<and>
   distinct (map fst (byType (computeMetaBreakdown ps))) \<and>
   distinct (map fst (bySubtype (computeMetaBreakdown ps))) \<and>
   (\<forall>k. map_of (byType (computeMetaBreakdown ps)) k =
      (let n = length (filter (\<lambda>p. meta_type (meta p) = Some k) ps)
       in if k = [] \<or> k = ''__proto__'' \<or> n = 0 then None
          else if k \<in> set objectPrototypeNames then Some (InheritedText k n)
          else Some (Count n))) \<and>
   (\<forall>k. map_of (bySubtype (computeMetaBreakdown ps)) k =
      (let n = length (filter (\<lambda>p. meta_subtype (meta p) = Some k) ps)
       in if k = [] \<or> k = ''__proto__'' \<or> n = 0 then None
          else if k \<in> set objectPrototypeNames then Some (InheritedText k n)
          else Some (Count n)))"
  by (simp only: computeMetaBreakdown_def Let_def MetaBreakdown.simps pageNumbers_collected
      distinct_keys byType_counts bySubtype_counts simp_thms)

lemma beautify_examples:
  "beautifyText ''Revenue table'' = ''Revenue table''"
  "beautifyText ''Notes'' = ''Notes''"
  "beautifyText ''a'' = ''a''"
  "beautifyText ''b'' = ''b''"
  by (simp_all add: beautifyText_def trim_def isSpace_def)

text \<open>
  Claim C2, as amended. A result of \<open>benchmarkMethod\<close> whose status is not
  \<open>indexing_completed\<close> has \<open>passageCount\<close> 0, \<open>contentCharsTotal\<close> 0 and the empty
  \<open>metaBreakdown\<close>, and a response of \<open>getFileStatus\<close> with such a status has none of
  the three. With status \<open>indexing_completed\<close> the three are there and describe the
  passages that were fetched: their number, the sum of the lengths of their contents,
  the number of different page numbers, and under every type and subtype name the number
  of passages that carry it. No entry is kept for a name that no passage carries, for
  the empty name and for \<open>__proto__\<close>, and under the name of a member of
  \<open>Object.prototype\<close> there is a text in the place of the number. All of these are the
  default values when there are no passages. The passages fetched are those of all the
  pages that the service lists, in order, with their contents cleaned up.
\<close>

theorem metrics_follow_status:
  "(benchmarkMethod client fileBuffer fileName contentType m w = Some (r, w') \<longrightarrow>
      (status r \<noteq> ''indexing_completed'' \<longrightarrow>
         passageCount r = Some 0 \<and> contentCharsTotal r = Some 0 \<and>
         metaBreakdown r = Some \<lparr>byType = [], bySubtype = [], pageCount = 0\<rparr>) \<and>
      (status r = ''indexing_completed'' \<longrightarrow>
         (\<exists>ps w3 b. getAllPassages client (fileId r) w3 = Some (Inr ps, w') \<and>
            passageCount r = Some (length ps) \<and>
            contentCharsTotal r = Some (sum_list (map (\<lambda>p. length (content p)) ps)) \<and>
            metaBreakdown r = Some b \<and>
            pageCount b = card (set (List.map_filter (\<lambda>p. pageNumber (meta p)) ps)) \<and>
            (\<forall>k. map_of (byType b) k =
               (let n = length (filter (\<lambda>p. meta_type (meta p) = Some k) ps)
                in if k = [] \<or> k = ''__proto__'' \<or> n = 0 then None
                   else if k \<in> set objectPrototypeNames then Some (InheritedText k n)
                   else Some (Count n))) \<and>
            (\<forall>k. map_of (bySubtype b) k =
               (let n = length (filter (\<lambda>p. meta_subtype (meta p) = Some k) ps)
                in if k = [] \<or> k = ''__proto__'' \<or> n = 0 then None
                   else if k \<in> set objectPrototypeNames then Some (InheritedText k n)
                   else Some (Count n)))))) \<and>
   (getFileStatus client fid startedAtParam w = Some (Inr resp, w'') \<longrightarrow>
      (fs_status resp \<noteq> ''indexing_completed'' \<longrightarrow>
         fs_passageCount resp = None \<and> fs_contentCharsTotal resp = None \<and>
         fs_metaBreakdown resp = None) \<and>
      (fs_status resp = ''indexing_completed'' \<longrightarrow>
         (\<exists>ps w3 b. getAllPassages client fid w3 = Some (Inr ps, w'') \<and>
            fs_passageCount resp = Some (length ps) \<and>
            fs_contentCharsTotal resp = Some (sum_list (map (\<lambda>p. length (content p)) ps)) \<and>
            fs_metaBreakdown resp = Some b \<and>
            pageCount b = card (set (List.map_filter (\<lambda>p. pageNumber (meta p)) ps)) \<and>
            (\<forall>k. map_of (byType b) k =
               (let n = length (filter (\<lambda>p. meta_type (meta p) = Some k) ps)
                in if k = [] \<or> k = ''__proto__'' \<or> n = 0 then None
                   else if k \<in> set objectPrototypeNames then Some (InheritedText k n)
                   else Some (Count n))) \<and>
            (\<forall>k. map_of (bySubtype b) k =
               (let n = length (filter (\<lambda>p. meta_subtype (meta p) = Some k) ps)
                in if k = [] \<or> k = ''__proto__'' \<or> n = 0 then None
                   else if k \<in> set objectPrototypeNames then Some (InheritedText k n)
                   else Some (Count n)))))) \<and>
   (afterPages client fid j None w = Some (raw, token, w1) \<and>
    listFilePassages client fid 200 token w1 = (Inr result, w2) \<and>
    \<not> truthy (lr_nextToken result) \<longrightarrow>
      getAllPassages client fid w =
        Some (Inr (map (\<lambda>p. \<lparr>passage_id = rp_id p, content = beautifyText (rp_content p),
                              meta = (case rp_meta p of
                                        None \<Rightarrow> \<lparr>meta_type = None, meta_subtype = None,
                                                   pageNumber = None, position = None,
                                                   sourceUrl = None\<rparr>
                                      | Some found \<Rightarrow> found)\<rparr>)
                     (raw @ lr_passages result)), w2))"
proof (intro conjI impI)
  assume r: "benchmarkMethod client fileBuffer fileName contentType m w = Some (r, w')"
  note cases = benchmarkMethod_cases [OF r]
  {
    assume "status r \<noteq> ''indexing_completed''"
    with cases show "passageCount r = Some 0" "contentCharsTotal r = Some 0"
      "metaBreakdown r = Some \<lparr>byType = [], bySubtype = [], pageCount = 0\<rparr>"
      by (auto simp: timeoutResult_def failureResult_def completedResult_def caughtResult_def
          emptyBreakdown_def)
  }
  {
    assume "status r = ''indexing_completed''"
    with cases obtain fid f ms ps w3 where "r = completedResult m fid f ms ps"
      and "getAllPassages client fid w3 = Some (Inr ps, w')"
      by (auto simp: timeoutResult_def failureResult_def caughtResult_def)
    then have "getAllPassages client (fileId r) w3 = Some (Inr ps, w')"
      "passageCount r = Some (length ps)"
      "contentCharsTotal r = Some (sum_list (map (\<lambda>p. length (content p)) ps))"
      "metaBreakdown r = Some (computeMetaBreakdown ps)"
      by (simp_all add: completedResult_def contentCharsTotal_sum)
    with breakdown_of_passages [of ps]
    show "(\<exists>ps w3 b. getAllPassages client (fileId r) w3 = Some (Inr ps, w') \<and>
            passageCount r = Some (length ps) \<and>
            contentCharsTotal r = Some (sum_list (map (\<lambda>p. length (content p)) ps)) \<and>
            metaBreakdown r = Some b \<and>
            pageCount b = card (set (List.map_filter (\<lambda>p. pageNumber (meta p)) ps)) \<and>
            (\<forall>k. map_of (byType b) k =
               (let n = length (filter (\<lambda>p. meta_type (meta p) = Some k) ps)
                in if k = [] \<or> k = ''__proto__'' \<or> n = 0 then None
                   else if k \<in> set objectPrototypeNames then Some (InheritedText k n)
                   else Some (Count n))) \<and>
            (\<forall>k. map_of (bySubtype b) k =
               (let n = length (filter (\<lambda>p. meta_subtype (meta p) = Some k) ps)
                in if k = [] \<or> k = ''__proto__'' \<or> n = 0 then None
                   else if k \<in> set objectPrototypeNames then Some (InheritedText k n)
                   else Some (Count n))))"
      by (intro exI [of _ ps] exI [of _ w3] exI [of _ "computeMetaBreakdown ps"]) simp
  }
next
  assume s: "getFileStatus client fid startedAtParam w = Some (Inr resp, w'')"
  note cases = getFileStatus_cases [OF s]
  {
    assume "fs_status resp \<noteq> ''indexing_completed''"
    with cases show "fs_passageCount resp = None" "fs_contentCharsTotal resp = None"
      "fs_metaBreakdown resp = None"
      by auto
  }
  {
    assume "fs_status resp = ''indexing_completed''"
    with cases obtain ps w3 where "getAllPassages client fid w3 = Some (Inr ps, w'')"
      "fs_passageCount resp = Some (length ps)"
      "fs_contentCharsTotal resp = Some (sum_list (map (\<lambda>p. length (content p)) ps))"
      "fs_metaBreakdown resp = Some (computeMetaBreakdown ps)"
      by (auto simp: contentCharsTotal_sum)
    with breakdown_of_passages [of ps]
    show "(\<exists>ps w3 b. getAllPassages client fid w3 = Some (Inr ps, w'') \<and>
            fs_passageCount resp = Some (length ps) \<and>
            fs_contentCharsTotal resp = Some (sum_list (map (\<lambda>p. length (content p)) ps)) \<and>
            fs_metaBreakdown resp = Some b \<and>
            pageCount b = card (set (List.map_filter (\<lambda>p. pageNumber (meta p)) ps)) \<and>
            (\<forall>k. map_of (byType b) k =
               (let n = length (filter (\<lambda>p. meta_type (meta p) = Some k) ps)
                in if k = [] \<or> k = ''__proto__'' \<or> n = 0 then None
                   else if k \<in> set objectPrototypeNames then Some (InheritedText k n)
                   else Some (Count n))) \<and>
            (\<forall>k. map_of (bySubtype b) k =
               (let n = length (filter (\<lambda>p. meta_subtype (meta p) = Some k) ps)
                in if k = [] \<or> k = ''__proto__'' \<or> n = 0 then None
                   else if k \<in> set objectPrototypeNames then Some (InheritedText k n)
                   else Some (Count n))))"
      by (intro exI [of _ ps] exI [of _ w3] exI [of _ "computeMetaBreakdown ps"]) simp
  }
next
  assume "afterPages client fid j None w = Some (raw, token, w1) \<and>
    listFilePassages client fid 200 token w1 = (Inr result, w2) \<and>
    \<not> truthy (lr_nextToken result)"
  then have "getAllPassages client fid w =
      Some (Inr (map toPassage (raw @ lr_passages result)), w2)"
    by (intro getAllPassages_returns [of client fid j w raw token w1]) simp_all
  moreover have "toPassage = (\<lambda>p. \<lparr>passage_id = rp_id p, content = beautifyText (rp_content p),
                              meta = (case rp_meta p of
                                        None \<Rightarrow> \<lparr>meta_type = None, meta_subtype = None,
                                                   pageNumber = None, position = None,
                                                   sourceUrl = None\<rparr>
                                      | Some found \<Rightarrow> found)\<rparr>)"
    by (rule ext) (simp add: toPassage_def emptyMeta_def split: option.splits)
  ultimately show "getAllPassages client fid w =
        Some (Inr (map (\<lambda>p. \<lparr>passage_id = rp_id p, content = beautifyText (rp_content p),
                              meta = (case rp_meta p of
                                        None \<Rightarrow> \<lparr>meta_type = None, meta_subtype = None,
                                                   pageNumber = None, position = None,
                                                   sourceUrl = None\<rparr>
                                      | Some found \<Rightarrow> found)\<rparr>)
                     (raw @ lr_passages result)), w2)"
    by simp
qed

lemma getAllPassages_scripted:
  "getAllPassages (scriptedClient statusAt ps) fid n = Some (Inr (map toPassage ps), n)"
  unfolding getAllPassages_def
  by (subst getAllPassagesLoop.simps) (simp add: scriptedClient_def)

lemma pollLoop_immediately:
  assumes "\<not> isPending st"
  shows "pollLoop (scriptedClient (immediately st) ps) fid (exampleFileObject ''upload_pending'') 0 0 =
         (Inr (exampleFileObject st, 1), 1)"
proof -
  have "pollLoop (scriptedClient (immediately st) ps) fid (exampleFileObject st) 1 1 =
        (Inr (exampleFileObject st, 1), 1)"
    using assms by (subst pollLoop.simps) (simp add: exampleFileObject_def)
  then show ?thesis
    by (subst pollLoop.simps)
       (simp add: scriptedClient_def immediately_def exampleFileObject_def isPending_def
          MAX_POLL_ATTEMPTS_def)
qed

lemma benchmarkMethod_immediately:
  assumes "\<not> isPending st"
  shows "benchmarkMethod (scriptedClient (immediately st) ps) [] ''report.pdf'' ''application/pdf''
           basicMethod 0 =
         Some (if st = ''indexing_failed'' \<or> st = ''upload_failed''
               then failureResult basicMethod ''file-1'' (exampleFileObject st) 2000
               else completedResult basicMethod ''file-1'' (exampleFileObject st) 2000
                      (map toPassage ps), 1)"
proof -
  have c: "upsertFile (scriptedClient (immediately st) ps) =
             (\<lambda>req n. (Inr (exampleFileObject ''upload_pending''), n))"
    "fetchPut (scriptedClient (immediately st) ps) = (\<lambda>url contentType body n. (Inr (), n))"
    "dateNow (scriptedClient (immediately st) ps) = (\<lambda>n. 2000 * int n)"
    by (simp_all add: scriptedClient_def)
  have f: "rf_uploadUrl (exampleFileObject ''upload_pending'') = Some ''https://upload.example/file-1''"
    "rf_id (exampleFileObject ''upload_pending'') = ''file-1''"
    "rf_status (exampleFileObject st) = st"
    by (simp_all add: exampleFileObject_def)
  show ?thesis
    by (simp add: benchmarkMethod_def benchmarkMethodTry_def c f Let_def MAX_POLL_ATTEMPTS_def
        pollLoop_immediately [OF assms] getAllPassages_scripted)
qed

lemma getFileStatus_immediately:
  "getFileStatus (scriptedClient (immediately st) ps) ''file-1'' None 0 =
     Some (Inr \<lparr>fs_fileId = ''file-1'', fs_status = st,
                fs_failedReason =
                  (if st = ''indexing_failed'' \<or> st = ''upload_failed''
                   then Some ''Unknown error'' else None),
                fs_passageCount =
                  (if st = ''indexing_completed'' then Some (length ps) else None),
                fs_contentCharsTotal =
                  (if st = ''indexing_completed''
                   then Some (computeContentCharsTotal (map toPassage ps)) else None),
                fs_processingTimeMs = None,
                fs_metaBreakdown =
                  (if st = ''indexing_completed''
                   then Some (computeMetaBreakdown (map toPassage ps)) else None)\<rparr>, 1)"
proof -
  have c: "getFile (scriptedClient (immediately st) ps) =
             (\<lambda>fid n. (Inr (exampleFileObject st), n + 1))"
    by (simp add: scriptedClient_def immediately_def)
  have f: "rf_status (exampleFileObject st) = st"
    "rf_failedStatusReason (exampleFileObject st) = None"
    by (simp_all add: exampleFileObject_def)
  show ?thesis
    by (simp add: getFileStatus_def c f Let_def getAllPassages_scripted orElse_def)
qed

lemma metrics_of_nothing:
  "computeContentCharsTotal [] = 0" "computeMetaBreakdown [] = emptyBreakdown"
  by (simp_all add: computeContentCharsTotal_def computeMetaBreakdown_def countPassages_def
      emptyBreakdown_def)

text \<open>
  Claim C2 as stated fails: a file that is indexed with no passages gives status
  \<open>indexing_completed\<close> with \<open>passageCount\<close> 0, \<open>contentCharsTotal\<close> 0 and the empty
  \<open>metaBreakdown\<close>, in \<open>benchmarkMethod\<close> and in \<open>getFileStatus\<close>.
\<close>

theorem completed_without_passages_has_default_metrics:
  "benchmarkMethod (scriptedClient (immediately ''indexing_completed'') []) [] ''report.pdf''
     ''application/pdf'' basicMethod 0 =
     Some (completedResult basicMethod ''file-1'' (exampleFileObject ''indexing_completed'') 2000 [],
           1) \<and>
   status (completedResult basicMethod ''file-1'' (exampleFileObject ''indexing_completed'') 2000 [])
     = ''indexing_completed'' \<and>
   passageCount (completedResult basicMethod ''file-1'' (exampleFileObject ''indexing_completed'')
     2000 []) = Some 0 \<and>
   contentCharsTotal (completedResult basicMethod ''file-1''
     (exampleFileObject ''indexing_completed'') 2000 []) = Some 0 \<and>
   metaBreakdown (completedResult basicMethod ''file-1''
     (exampleFileObject ''indexing_completed'') 2000 []) = Some emptyBreakdown \<and>
   getFileStatus (scriptedClient (immediately ''indexing_completed'') []) ''file-1'' None 0 =
     Some (Inr \<lparr>fs_fileId = ''file-1'', fs_status = ''indexing_completed'',
                fs_failedReason = None, fs_passageCount = Some 0,
                fs_contentCharsTotal = Some 0, fs_processingTimeMs = None,
                fs_metaBreakdown = Some emptyBreakdown\<rparr>, 1)"
  by (simp add: benchmarkMethod_immediately getFileStatus_immediately isPending_def
      completedResult_def metrics_of_nothing)

lemma twoPassages_converted:
  "map toPassage twoPassages =
     [\<lparr>passage_id = ''p1'', content = ''Revenue table'',
       meta = \<lparr>meta_type = Some ''chunk'', meta_subtype = Some ''table'',
                pageNumber = Some 1, position = None, sourceUrl = None\<rparr>\<rparr>,
      \<lparr>passage_id = ''p2'', content = ''Notes'',
       meta = \<lparr>meta_type = None, meta_subtype = None,
                pageNumber = None, position = None, sourceUrl = None\<rparr>\<rparr>]"
  by (simp add: twoPassages_def toPassage_def emptyMeta_def beautify_examples)

lemma oddlyTypedPassages_converted:
  "map toPassage oddlyTypedPassages =
     [\<lparr>passage_id = ''p1'', content = ''a'',
       meta = \<lparr>meta_type = Some ''constructor'', meta_subtype = Some ''__proto__'',
                pageNumber = Some 3, position = None, sourceUrl = None\<rparr>\<rparr>,
      \<lparr>passage_id = ''p2'', content = ''b'',
       meta = \<lparr>meta_type = Some ''constructor'', meta_subtype = Some [],
                pageNumber = Some 3, position = None, sourceUrl = None\<rparr>\<rparr>]"
  by (simp add: oddlyTypedPassages_def toPassage_def beautify_examples)

lemma example_breakdowns:
  "computeMetaBreakdown (map toPassage twoPassages) =
     \<lparr>byType = [(''chunk'', Count 1)], bySubtype = [(''table'', Count 1)], pageCount = 1\<rparr>"
  "computeMetaBreakdown (map toPassage oddlyTypedPassages) =
     \<lparr>byType = [(''constructor'', InheritedText ''constructor'' 2)], bySubtype = [],
      pageCount = 1\<rparr>"
  unfolding twoPassages_converted oddlyTypedPassages_converted
  by (simp_all add: computeMetaBreakdown_def countPassages_def countPassage_def bump_def
      firstTally_def objectPrototypeNames_def)

lemma example_totals:
  "length twoPassages = 2" "length oddlyTypedPassages = 2"
  "computeContentCharsTotal (map toPassage twoPassages) = 18"
  "computeContentCharsTotal (map toPassage oddlyTypedPassages) = 2"
  by (simp_all add: contentCharsTotal_sum twoPassages_converted oddlyTypedPassages_converted)
     (simp_all add: twoPassages_def oddlyTypedPassages_def)

theorem metrics_follow_status_witness:
  "(\<exists>r. benchmarkMethod (scriptedClient (immediately ''indexing_completed'') twoPassages) []
          ''report.pdf'' ''application/pdf'' basicMethod 0 = Some (r, 1) \<and>
        status r = ''indexing_completed'' \<and> passageCount r = Some 2 \<and>
        contentCharsTotal r = Some 18 \<and>
        metaBreakdown r =
          Some \<lparr>byType = [(''chunk'', Count 1)], bySubtype = [(''table'', Count 1)],
                pageCount = 1\<rparr>) \<and>
   getFileStatus (scriptedClient (immediately ''indexing_completed'') twoPassages) ''file-1'' None 0 =
     Some (Inr \<lparr>fs_fileId = ''file-1'', fs_status = ''indexing_completed'',
                fs_failedReason = None, fs_passageCount = Some 2,
                fs_contentCharsTotal = Some 18, fs_processingTimeMs = None,
                fs_metaBreakdown =
                  Some \<lparr>byType = [(''chunk'', Count 1)], bySubtype = [(''table'', Count 1)],
                        pageCount = 1\<rparr>\<rparr>, 1) \<and>
   (\<exists>r. benchmarkMethod (scriptedClient (immediately ''indexing_failed'') twoPassages) []
          ''report.pdf'' ''application/pdf'' basicMethod 0 = Some (r, 1) \<and>
        status r = ''indexing_failed'' \<and> passageCount r = Some 0 \<and>
        contentCharsTotal r = Some 0 \<and>
        metaBreakdown r = Some \<lparr>byType = [], bySubtype = [], pageCount = 0\<rparr>) \<and>
   getFileStatus (scriptedClient (immediately ''indexing_pending'') twoPassages) ''file-1'' None 0 =
     Some (Inr \<lparr>fs_fileId = ''file-1'', fs_status = ''indexing_pending'',
                fs_failedReason = None, fs_passageCount = None,
                fs_contentCharsTotal = None, fs_processingTimeMs = None,
                fs_metaBreakdown = None\<rparr>, 1) \<and>
   getFileStatus (scriptedClient (immediately ''indexing_completed'') oddlyTypedPassages)
       ''file-1'' None 0 =
     Some (Inr \<lparr>fs_fileId = ''file-1'', fs_status = ''indexing_completed'',
                fs_failedReason = None, fs_passageCount = Some 2,
                fs_contentCharsTotal = Some 2, fs_processingTimeMs = None,
                fs_metaBreakdown =
                  Some \<lparr>byType = [(''constructor'', InheritedText ''constructor'' 2)],
                        bySubtype = [], pageCount = 1\<rparr>\<rparr>, 1)"
proof -
  let ?ok = "scriptedClient (immediately ''indexing_completed'') twoPassages"
  let ?ko = "scriptedClient (immediately ''indexing_failed'') twoPassages"
  let ?wait = "scriptedClient (immediately ''indexing_pending'') twoPassages"
  let ?odd = "scriptedClient (immediately ''indexing_completed'') oddlyTypedPassages"
  let ?r1 = "completedResult basicMethod ''file-1'' (exampleFileObject ''indexing_completed'') 2000
             (map toPassage twoPassages)"
  let ?r2 = "failureResult basicMethod ''file-1'' (exampleFileObject ''indexing_failed'') 2000"
  have b1: "benchmarkMethod ?ok [] ''report.pdf'' ''application/pdf'' basicMethod 0 = Some (?r1, 1)"
    by (simp add: benchmarkMethod_immediately isPending_def)
  have b2: "benchmarkMethod ?ko [] ''report.pdf'' ''application/pdf'' basicMethod 0 = Some (?r2, 1)"
    by (simp add: benchmarkMethod_immediately isPending_def)
  have s1: "status ?r1 = ''indexing_completed''" and f1: "fileId ?r1 = ''file-1''"
    and m1: "metaBreakdown ?r1 =
      Some \<lparr>byType = [(''chunk'', Count 1)], bySubtype = [(''table'', Count 1)], pageCount = 1\<rparr>"
    by (simp_all add: completedResult_def example_breakdowns)
  have s2: "status ?r2 = ''indexing_failed''"
    by (simp add: failureResult_def exampleFileObject_def)
  have "\<exists>ps w3 b. getAllPassages ?ok (fileId ?r1) w3 = Some (Inr ps, 1) \<and>
          passageCount ?r1 = Some (length ps) \<and>
          contentCharsTotal ?r1 = Some (sum_list (map (\<lambda>p. length (content p)) ps)) \<and>
          metaBreakdown ?r1 = Some b"
    using metrics_follow_status [where client = ?ok and fileBuffer = "[]" and fileName = "''report.pdf''"
        and contentType = "''application/pdf''" and m = basicMethod and w = 0 and r = ?r1
        and w' = 1, THEN conjunct1] b1 s1
    by blast
  then obtain ps w3 where "getAllPassages ?ok ''file-1'' w3 = Some (Inr ps, 1)"
    and n: "passageCount ?r1 = Some (length ps)"
    and c: "contentCharsTotal ?r1 = Some (sum_list (map (\<lambda>p. length (content p)) ps))"
    unfolding f1 by (elim exE conjE)
  then have "ps = map toPassage twoPassages"
    by (simp add: getAllPassages_scripted)
  with n c have p1: "passageCount ?r1 = Some 2" "contentCharsTotal ?r1 = Some 18"
    by (simp_all only: twoPassages_converted) simp_all
  from metrics_follow_status [where client = ?ko and fileBuffer = "[]" and fileName = "''report.pdf''"
        and contentType = "''application/pdf''" and m = basicMethod and w = 0 and r = ?r2
        and w' = 1, THEN conjunct1] b2 s2
  have p2: "passageCount ?r2 = Some 0" "contentCharsTotal ?r2 = Some 0"
    "metaBreakdown ?r2 = Some \<lparr>byType = [], bySubtype = [], pageCount = 0\<rparr>"
    by simp_all
  have g1: "getFileStatus ?ok ''file-1'' None 0 =
     Some (Inr \<lparr>fs_fileId = ''file-1'', fs_status = ''indexing_completed'',
                fs_failedReason = None, fs_passageCount = Some 2,
                fs_contentCharsTotal = Some 18, fs_processingTimeMs = None,
                fs_metaBreakdown =
                  Some \<lparr>byType = [(''chunk'', Count 1)], bySubtype = [(''table'', Count 1)],
                        pageCount = 1\<rparr>\<rparr>, 1)"
    by (simp add: getFileStatus_immediately example_breakdowns example_totals)
  have g2: "getFileStatus ?wait ''file-1'' None 0 =
     Some (Inr \<lparr>fs_fileId = ''file-1'', fs_status = ''indexing_pending'',
                fs_failedReason = None, fs_passageCount = None,
                fs_contentCharsTotal = None, fs_processingTimeMs = None,
                fs_metaBreakdown = None\<rparr>, 1)"
    by (simp add: getFileStatus_immediately)
  have g3: "getFileStatus ?odd ''file-1'' None 0 =
     Some (Inr \<lparr>fs_fileId = ''file-1'', fs_status = ''indexing_completed'',
                fs_failedReason = None, fs_passageCount = Some 2,
                fs_contentCharsTotal = Some 2, fs_processingTimeMs = None,
                fs_metaBreakdown =
                  Some \<lparr>byType = [(''constructor'', InheritedText ''constructor'' 2)],
                        bySubtype = [], pageCount = 1\<rparr>\<rparr>, 1)"
    by (simp add: getFileStatus_immediately example_breakdowns example_totals)
  from b1 s1 p1 m1 have e1: "\<exists>r. benchmarkMethod ?ok [] ''report.pdf'' ''application/pdf''
        basicMethod 0 = Some (r, 1) \<and>
      status r = ''indexing_completed'' \<and> passageCount r = Some 2 \<and>
      contentCharsTotal r = Some 18 \<and>
      metaBreakdown r =
        Some \<lparr>byType = [(''chunk'', Count 1)], bySubtype = [(''table'', Count 1)],
              pageCount = 1\<rparr>"
    by (intro exI [of _ ?r1] conjI)
  from b2 s2 p2 have e2: "\<exists>r. benchmarkMethod ?ko [] ''report.pdf'' ''application/pdf''
        basicMethod 0 = Some (r, 1) \<and>
      status r = ''indexing_failed'' \<and> passageCount r = Some 0 \<and>
      contentCharsTotal r = Some 0 \<and>
      metaBreakdown r = Some \<lparr>byType = [], bySubtype = [], pageCount = 0\<rparr>"
    by (intro exI [of _ ?r2] conjI)
  from e1 g1 e2 g2 g3 show ?thesis
    by (intro conjI)
qed

subsection \<open>Excerpts within the budget\<close>

lemma wholePassages_Cons:
  "wholePassages (p # ps) = content p @ [LF, LF] @ wholePassages ps"
  by (simp add: wholePassages_def)

lemma excerptLoop_prefix:
  "\<exists>k\<le>length ps.
     excerptLoop acc ps = acc @ wholePassages (take k ps) \<and>
     (\<forall>i<k. length (acc @ wholePassages (take i ps)) + length (content (ps ! i))
              \<le> EXCERPT_CHAR_LIMIT) \<and>
     (k < length ps \<longrightarrow>
        length (acc @ wholePassages (take k ps)) + length (content (ps ! k))
          > EXCERPT_CHAR_LIMIT)"
proof (induction ps arbitrary: acc)
  case Nil
  then show ?case by (simp add: wholePassages_def)
next
  case (Cons p ps)
  show ?case
  proof (cases "length acc + length (content p) > EXCERPT_CHAR_LIMIT")
    case True
    then show ?thesis
      by (intro exI [of _ 0]) (simp add: wholePassages_def)
  next
    case False
    from Cons.IH [of "acc @ content p @ [LF, LF]"] obtain k where k: "k \<le> length ps"
      and eq: "excerptLoop (acc @ content p @ [LF, LF]) ps =
               (acc @ content p @ [LF, LF]) @ wholePassages (take k ps)"
      and within: "\<forall>i<k. length ((acc @ content p @ [LF, LF]) @ wholePassages (take i ps)) +
                     length (content (ps ! i)) \<le> EXCERPT_CHAR_LIMIT"
      and stop: "k < length ps \<longrightarrow>
                   length ((acc @ content p @ [LF, LF]) @ wholePassages (take k ps)) +
                   length (content (ps ! k)) > EXCERPT_CHAR_LIMIT"
      by blast
    have "\<forall>i<Suc k. length (acc @ wholePassages (take i (p # ps))) +
            length (content ((p # ps) ! i)) \<le> EXCERPT_CHAR_LIMIT"
    proof (intro allI impI)
      fix i assume "i < Suc k"
      show "length (acc @ wholePassages (take i (p # ps))) + length (content ((p # ps) ! i))
            \<le> EXCERPT_CHAR_LIMIT"
      proof (cases i)
        case 0
        with False show ?thesis by (simp add: wholePassages_def)
      next
        case (Suc j)
        with \<open>i < Suc k\<close> within have
          "length ((acc @ content p @ [LF, LF]) @ wholePassages (take j ps)) +
           length (content (ps ! j)) \<le> EXCERPT_CHAR_LIMIT"
          by simp
        with Suc show ?thesis by (simp add: wholePassages_Cons)
      qed
    qed
    with k eq stop False show ?thesis
      by (intro exI [of _ "Suc k"]) (simp add: wholePassages_Cons)
  qed
qed


subsection \<open>Trimming\<close>

lemma trim_no_space_ends:
  "trim s = [] \<or> (\<not> isSpace (hd (trim s)) \<and> \<not> isSpace (last (trim s)))"
proof (cases "trim s = []")
  case True
  then show ?thesis by simp
next
  case False
  let ?t = "dropWhile isSpace s"
  let ?u = "dropWhile isSpace (rev ?t)"
  from False have u: "?u \<noteq> []"
    by (simp add: trim_def)
  have t: "?t \<noteq> []"
  proof
    assume "?t = []"
    then have "?u = []" by (simp only: rev.simps dropWhile.simps)
    with u show False by contradiction
  qed
  have "\<not> isSpace (hd ?u)"
    using u by (rule hd_dropWhile)
  then have l: "\<not> isSpace (last (trim s))"
    using u by (simp add: trim_def last_rev)
  obtain pre where "rev ?t = pre @ ?u"
    by (metis takeWhile_dropWhile_id)
  then have "last ?u = last (rev ?t)"
    using u by (metis last_appendR)
  also have "\<dots> = hd ?t"
    using t by (simp add: last_rev)
  finally have "hd (trim s) = hd ?t"
    using u by (simp add: trim_def hd_rev)
  moreover have "\<not> isSpace (hd ?t)"
    using t by (rule hd_dropWhile)
  ultimately show ?thesis
    using l by simp
qed

lemma trim_append_spaces:
  assumes "s \<noteq> []" and "\<not> isSpace (hd s)" and "\<not> isSpace (last s)"
    and "\<forall>c\<in>set ws. isSpace c"
  shows "trim (s @ ws) = s"
proof -
  have a: "dropWhile isSpace (s @ ws) = s @ ws"
    using assms(1,2) by (cases s) simp_all
  have b: "dropWhile isSpace (rev ws @ rev s) = dropWhile isSpace (rev s)"
    by (rule dropWhile_append2) (use assms(4) in auto)
  have c: "dropWhile isSpace (rev s) = rev s"
    using assms(1,3) by (cases "rev s") (auto simp: hd_rev [symmetric])
  show ?thesis
    by (simp add: trim_def a b c)
qed

lemma content_toPassage_trimmed:
  "content (toPassage p) = [] \<or>
   (\<not> isSpace (hd (content (toPassage p))) \<and> \<not> isSpace (last (content (toPassage p))))"
  using trim_no_space_ends by (simp add: toPassage_def beautifyText_def)

lemma concat_sep_join:
  "xs \<noteq> [] \<Longrightarrow> concat (map (\<lambda>c. c @ sep) xs) = join sep xs @ sep"
  by (induction sep xs rule: join.induct) simp_all

lemma join_nonempty:
  "xs \<noteq> [] \<Longrightarrow> hd xs \<noteq> [] \<Longrightarrow> join sep xs \<noteq> [] \<and> hd (join sep xs) = hd (hd xs)"
  by (induction sep xs rule: join.induct) simp_all

lemma last_join:
  "xs \<noteq> [] \<Longrightarrow> last xs \<noteq> [] \<Longrightarrow> last (join sep xs) = last (last xs)"
proof (induction sep xs rule: join.induct)
  case (3 sep x y xs)
  then have "join sep (y # xs) \<noteq> [] \<or> last (y # xs) = []"
    by (induction sep "y # xs" arbitrary: y xs rule: join.induct) auto
  with 3 show ?case by auto
qed simp_all


lemma isSpace_LF: "isSpace LF"
  by (simp add: isSpace_def)

lemma finishExcerpt_whole:
  assumes "0 < k" and "k \<le> length rs" and "\<forall>p\<in>set (take k (map toPassage rs)). content p \<noteq> []"
  shows "finishExcerpt (wholePassages (take k (map toPassage rs))) =
         join [LF, LF] (map content (take k (map toPassage rs)))"
proof -
  let ?cs = "map content (take k (map toPassage rs))"
  have ne: "take k rs \<noteq> []"
    using assms(1,2) by auto
  then have cs: "?cs \<noteq> []"
    by (simp add: take_map)
  have whole: "wholePassages (take k (map toPassage rs)) = join [LF, LF] ?cs @ [LF, LF]"
    using concat_sep_join [OF cs, of "[LF, LF]"] by (simp add: wholePassages_def comp_def)
  have h: "hd ?cs = content (toPassage (hd (take k rs)))"
    and l: "last ?cs = content (toPassage (last (take k rs)))"
    using ne by (simp_all add: take_map hd_map last_map)
  have "hd ?cs \<in> set ?cs" and "last ?cs \<in> set ?cs"
    using cs by (rule hd_in_set, rule last_in_set)
  with assms(3) have hne: "hd ?cs \<noteq> []" and lne: "last ?cs \<noteq> []"
    by auto
  from hne h content_toPassage_trimmed [of "hd (take k rs)"]
  have hs: "\<not> isSpace (hd (hd ?cs))" by simp
  from lne l content_toPassage_trimmed [of "last (take k rs)"]
  have ls: "\<not> isSpace (last (last ?cs))" by simp
  from join_nonempty [OF cs hne, of "[LF, LF]"] last_join [OF cs lne, of "[LF, LF]"] hs ls
  have "join [LF, LF] ?cs \<noteq> []" and "\<not> isSpace (hd (join [LF, LF] ?cs))"
    and "\<not> isSpace (last (join [LF, LF] ?cs))"
    by simp_all
  then have "trim (join [LF, LF] ?cs @ [LF, LF]) = join [LF, LF] ?cs"
    by (rule trim_append_spaces) (simp add: isSpace_LF)
  with \<open>join [LF, LF] ?cs \<noteq> []\<close> show ?thesis
    by (simp add: finishExcerpt_def whole)
qed

lemma wholePassages_snoc:
  "wholePassages (ps @ [p]) = wholePassages ps @ content p @ [LF, LF]"
  by (simp add: wholePassages_def)

lemma within_budget_length:
  assumes "k \<le> length ps"
    and "\<forall>i<k. length (wholePassages (take i ps)) + length (content (ps ! i)) \<le> EXCERPT_CHAR_LIMIT"
  shows "length (wholePassages (take k ps)) \<le> EXCERPT_CHAR_LIMIT + 2"
proof (cases k)
  case 0
  then show ?thesis by (simp add: wholePassages_def)
next
  case (Suc j)
  with assms(1) have "take k ps = take j ps @ [ps ! j]"
    by (simp add: take_Suc_conv_app_nth)
  moreover from assms(2) Suc
  have "length (wholePassages (take j ps)) + length (content (ps ! j)) \<le> EXCERPT_CHAR_LIMIT"
    by simp
  ultimately show ?thesis
    by (simp add: wholePassages_snoc)
qed

text \<open>
  Claim C6. \<open>getExcerpt\<close> asks once for at most 50 passages. When the call throws, the
  result is the failure placeholder. Otherwise there is a number \<open>k\<close> such that the result
  is made of the first \<open>k\<close> passages, whole: each of them fitted, with the excerpt before
  it, into the budget of 4000 characters, and the passage after them, if any, did not.
  The excerpt is trimmed, and an empty one is replaced by a placeholder; when the \<open>k\<close>
  passages have content, the result is exactly their contents joined by blank lines.
\<close>

theorem excerpt_budget:
  assumes "passages = map toPassage (lr_passages result)"
  shows "(listFilePassages client fid 50 None w = (Inl e, w') \<longrightarrow>
            getExcerpt client fid w = (''[Failed to fetch content]'', w')) \<and>
         (listFilePassages client fid 50 None w = (Inr result, w') \<longrightarrow>
            (\<exists>k\<le>length passages.
               getExcerpt client fid w = (finishExcerpt (wholePassages (take k passages)), w') \<and>
               (\<forall>i<k. length (wholePassages (take i passages)) + length (content (passages ! i))
                        \<le> 4000) \<and>
               (k < length passages \<longrightarrow>
                  length (wholePassages (take k passages)) + length (content (passages ! k))
                    > 4000) \<and>
               length (wholePassages (take k passages)) \<le> 4002 \<and>
               (length (lr_passages result) \<le> 50 \<longrightarrow> k \<le> 50) \<and>
               (0 < k \<and> (\<forall>p\<in>set (take k passages). content p \<noteq> []) \<longrightarrow>
                  finishExcerpt (wholePassages (take k passages)) =
                    join [LF, LF] (map content (take k passages)))))"
proof (intro conjI impI)
  assume "listFilePassages client fid 50 None w = (Inl e, w')"
  then show "getExcerpt client fid w = (''[Failed to fetch content]'', w')"
    by (simp add: getExcerpt_def getFilePassages_def)
next
  assume listed: "listFilePassages client fid 50 None w = (Inr result, w')"
  from excerptLoop_prefix [of passages "[]"] obtain k where k: "k \<le> length passages"
    and eq: "excerptLoop [] passages = wholePassages (take k passages)"
    and within: "\<forall>i<k. length (wholePassages (take i passages)) +
                   length (content (passages ! i)) \<le> EXCERPT_CHAR_LIMIT"
    and stop: "k < length passages \<longrightarrow>
                 length (wholePassages (take k passages)) + length (content (passages ! k))
                   > EXCERPT_CHAR_LIMIT"
    by auto
  have res: "getExcerpt client fid w = (finishExcerpt (wholePassages (take k passages)), w')"
    using listed eq assms
    by (simp add: getExcerpt_def getFilePassages_def finishExcerpt_def Let_def)
  have len: "length (wholePassages (take k passages)) \<le> 4002"
    using within_budget_length [OF k within] by (simp add: EXCERPT_CHAR_LIMIT_def)
  have lim: "length (lr_passages result) \<le> 50 \<longrightarrow> k \<le> 50"
    using k assms by simp
  have whole: "0 < k \<and> (\<forall>p\<in>set (take k passages). content p \<noteq> []) \<longrightarrow>
                  finishExcerpt (wholePassages (take k passages)) =
                    join [LF, LF] (map content (take k passages))"
    using k finishExcerpt_whole [of k "lr_passages result"] assms by simp
  from k res within stop len lim whole
  show "\<exists>k\<le>length passages.
               getExcerpt client fid w = (finishExcerpt (wholePassages (take k passages)), w') \<and>
               (\<forall>i<k. length (wholePassages (take i passages)) + length (content (passages ! i))
                        \<le> 4000) \<and>
               (k < length passages \<longrightarrow>
                  length (wholePassages (take k passages)) + length (content (passages ! k))
                    > 4000) \<and>
               length (wholePassages (take k passages)) \<le> 4002 \<and>
               (length (lr_passages result) \<le> 50 \<longrightarrow> k \<le> 50) \<and>
               (0 < k \<and> (\<forall>p\<in>set (take k passages). content p \<noteq> []) \<longrightarrow>
                  finishExcerpt (wholePassages (take k passages)) =
                    join [LF, LF] (map content (take k passages)))"
    unfolding EXCERPT_CHAR_LIMIT_def by (intro exI [of _ k] conjI)
qed


lemma replaceCRLF_id: "CR \<notin> set s \<Longrightarrow> replaceCRLF s = s"
  by (induction s rule: replaceCRLF.induct) auto

lemma replaceTabs_id: "TAB \<notin> set s \<Longrightarrow> replaceTabs s = s"
  by (induction s) auto

lemma collapseNewlines_id: "LF \<notin> set s \<Longrightarrow> collapseNewlines s = s"
  by (induction s rule: collapseNewlines.induct) auto

lemma beautifyText_replicate:
  assumes "0 < n" and "\<not> isSpace c"
  shows "beautifyText (replicate n c) = replicate n c"
proof -
  from assms(2) have c: "c \<noteq> CR" "c \<noteq> TAB" "c \<noteq> LF"
    by (auto simp: isSpace_def)
  have "trim (replicate n c @ []) = replicate n c"
    using assms by (intro trim_append_spaces) (simp_all add: hd_replicate last_replicate)
  with c show ?thesis
    by (simp add: beautifyText_def replaceCRLF_id replaceTabs_id collapseNewlines_id)
qed

theorem excerpt_budget_witness:
  "getExcerpt (scriptedClient (immediately ''indexing_completed'') longPassages) ''file-1'' 0 =
     (replicate 3000 CHR ''a'' @ [LF, LF] @ replicate 900 CHR ''b'', 0) \<and>
   getExcerpt listFailClient ''file-1'' 0 = (''[Failed to fetch content]'', 0)"
proof -
  have "listFilePassages listFailClient ''file-1'' 50 None 0 = (Inl (Error ''not found''), 0)"
    by (simp add: listFailClient_def)
  with excerpt_budget [OF refl, of listFailClient "''file-1''" 0 "Error ''not found''" 0,
      THEN conjunct1]
  have failed: "getExcerpt listFailClient ''file-1'' 0 = (''[Failed to fetch content]'', 0)"
    by simp
  let ?c = "scriptedClient (immediately ''indexing_completed'') longPassages"
  let ?result = "\<lparr>lr_passages = longPassages, lr_nextToken = None\<rparr>"
  let ?ps = "map toPassage (lr_passages ?result)"
  have listed: "listFilePassages ?c ''file-1'' 50 None 0 = (Inr ?result, 0)"
    by (simp add: scriptedClient_def)
  have sp: "\<not> isSpace CHR ''a''" "\<not> isSpace CHR ''b''" "\<not> isSpace CHR ''c''"
    by (simp_all add: isSpace_def)
  have ps: "?ps =
      [\<lparr>passage_id = ''p1'', content = replicate 3000 CHR ''a'', meta = emptyMeta\<rparr>,
       \<lparr>passage_id = ''p2'', content = replicate 900 CHR ''b'', meta = emptyMeta\<rparr>,
       \<lparr>passage_id = ''p3'', content = replicate 500 CHR ''c'', meta = emptyMeta\<rparr>]"
    by (simp add: longPassages_def textPassage_def toPassage_def beautifyText_replicate sp)
  note t = excerpt_budget [OF refl, of ?c "''file-1''" 0 _ 0 ?result, THEN conjunct2,
      rule_format, OF listed]
  from t obtain k where k: "k \<le> length ?ps"
    and res: "getExcerpt ?c ''file-1'' 0 = (finishExcerpt (wholePassages (take k ?ps)), 0)"
    and within: "\<forall>i<k. length (wholePassages (take i ?ps)) + length (content (?ps ! i)) \<le> 4000"
    and stop: "k < length ?ps \<longrightarrow>
                 length (wholePassages (take k ?ps)) + length (content (?ps ! k)) > 4000"
    and bound: "length (wholePassages (take k ?ps)) \<le> 4002"
    and limit: "length (lr_passages ?result) \<le> 50 \<longrightarrow> k \<le> 50"
    and joined: "0 < k \<and> (\<forall>p\<in>set (take k ?ps). content p \<noteq> []) \<longrightarrow>
                  finishExcerpt (wholePassages (take k ?ps)) =
                    join [LF, LF] (map content (take k ?ps))"
    by (elim exE conjE)
  from k have "k = 0 \<or> k = 1 \<or> k = 2 \<or> k = 3"
    unfolding ps by auto
  moreover have "k \<noteq> 0"
  proof
    assume "k = 0"
    with stop show False
      unfolding ps by (simp add: wholePassages_def)
  qed
  moreover have "k \<noteq> 1"
  proof
    assume "k = 1"
    with stop show False
      unfolding ps by (simp add: wholePassages_def)
  qed
  moreover have "k \<noteq> 3"
  proof
    assume "k = 3"
    with within have "length (wholePassages (take 2 ?ps)) + length (content (?ps ! 2)) \<le> 4000"
      by simp
    then show False
      unfolding ps by (simp add: wholePassages_def)
  qed
  ultimately have k2: "k = 2"
    by simp
  have "finishExcerpt (wholePassages (take 2 ?ps)) = join [LF, LF] (map content (take 2 ?ps))"
    using joined unfolding k2 ps by simp
  also have "\<dots> = replicate 3000 CHR ''a'' @ [LF, LF] @ replicate 900 CHR ''b''"
    unfolding ps by simp
  finally show ?thesis
    using res k2 failed by simp
qed

subsection \<open>Parallel search\<close>

lemma searchOne_cases:
  "(search query rid m limit = Inr passages \<longrightarrow>
      searchOne search query rid limit m =
        \<lparr>sr_method = m, sr_passages = passages, sr_error = None\<rparr>) \<and>
   (search query rid m limit = Inl (Error message) \<longrightarrow>
      searchOne search query rid limit m =
        \<lparr>sr_method = m, sr_passages = [], sr_error = Some message\<rparr>) \<and>
   (search query rid m limit = Inl (Thrown text) \<longrightarrow>
      searchOne search query rid limit m =
        \<lparr>sr_method = m, sr_passages = [], sr_error = Some ''Search failed''\<rparr>)"
  by (simp add: searchOne_def)

text \<open>
  Claim C7, as amended. For a request with a query and a run id that are not empty, the
  response holds three entries, one for each configured method: \<open>basic\<close>, \<open>vision\<close> and
  \<open>landing-ai\<close>, in this order. The entry of a method depends on the search for this
  method alone: the passages found and no error when the search returns; no passages
  and, as the error, the message of the \<open>Error\<close> thrown, whatever it is, or \<open>Search
  failed\<close> when what was thrown is no \<open>Error\<close>. A request without a query or without a
  run id is answered with \<open>Missing query or runId\<close> and no entries.
\<close>

theorem search_isolation:
  "(q = Some query \<and> query \<noteq> [] \<and> runIdParam = Some rid \<and> rid \<noteq> [] \<longrightarrow>
     (\<exists>r1 r2 r3.
        searchHandler search q runIdParam limit = SearchOk query [r1, r2, r3] \<and>
        sr_method r1 = ''basic'' \<and> sr_method r2 = ''vision'' \<and> sr_method r3 = ''landing-ai'' \<and>
        map sr_method [r1, r2, r3] = map mc_name METHODS \<and>
        (\<forall>r \<in> {r1, r2, r3}.
           (\<forall>found. search query rid (sr_method r) limit = Inr found \<longrightarrow>
              sr_passages r = found \<and> sr_error r = None) \<and>
           (\<forall>message. search query rid (sr_method r) limit = Inl (Error message) \<longrightarrow>
              sr_passages r = [] \<and> sr_error r = Some message) \<and>
           (\<forall>text. search query rid (sr_method r) limit = Inl (Thrown text) \<longrightarrow>
              sr_passages r = [] \<and> sr_error r = Some ''Search failed'')))) \<and>
   (\<not> truthy q \<or> \<not> truthy runIdParam \<longrightarrow>
      searchHandler search q runIdParam limit = BadRequest ''Missing query or runId'')"
proof (intro conjI impI)
  assume a: "q = Some query \<and> query \<noteq> [] \<and> runIdParam = Some rid \<and> rid \<noteq> []"
  let ?r = "searchOne search query rid limit"
  have h: "searchHandler search q runIdParam limit =
           SearchOk query [?r ''basic'', ?r ''vision'', ?r ''landing-ai'']"
    using a by (simp add: searchHandler_def)
  have m: "sr_method (?r m) = m" for m
    by (simp add: searchOne_def split: sum.splits)
  have each: "(\<forall>found. search query rid m limit = Inr found \<longrightarrow>
                 sr_passages (?r m) = found \<and> sr_error (?r m) = None) \<and>
              (\<forall>message. search query rid m limit = Inl (Error message) \<longrightarrow>
                 sr_passages (?r m) = [] \<and> sr_error (?r m) = Some message) \<and>
              (\<forall>text. search query rid m limit = Inl (Thrown text) \<longrightarrow>
                 sr_passages (?r m) = [] \<and> sr_error (?r m) = Some ''Search failed'')" for m
    by (simp add: searchOne_def)
  show "\<exists>r1 r2 r3.
        searchHandler search q runIdParam limit = SearchOk query [r1, r2, r3] \<and>
        sr_method r1 = ''basic'' \<and> sr_method r2 = ''vision'' \<and> sr_method r3 = ''landing-ai'' \<and>
        map sr_method [r1, r2, r3] = map mc_name METHODS \<and>
        (\<forall>r \<in> {r1, r2, r3}.
           (\<forall>found. search query rid (sr_method r) limit = Inr found \<longrightarrow>
              sr_passages r = found \<and> sr_error r = None) \<and>
           (\<forall>message. search query rid (sr_method r) limit = Inl (Error message) \<longrightarrow>
              sr_passages r = [] \<and> sr_error r = Some message) \<and>
           (\<forall>text. search query rid (sr_method r) limit = Inl (Thrown text) \<longrightarrow>
              sr_passages r = [] \<and> sr_error r = Some ''Search failed''))"
    by (rule exI [of _ "?r ''basic''"], rule exI [of _ "?r ''vision''"],
        rule exI [of _ "?r ''landing-ai''"])
       (use each [of "''basic''"] each [of "''vision''"] each [of "''landing-ai''"] in
         \<open>simp add: h m METHODS_def\<close>)
next
  assume "\<not> truthy q \<or> \<not> truthy runIdParam"
  then show "searchHandler search q runIdParam limit = BadRequest ''Missing query or runId''"
    by (auto simp: searchHandler_def split: option.splits)
qed

text \<open>
  Claim C7 as stated fails: when the search for one method throws an \<open>Error\<close> whose
  message is empty, the error of its entry is the empty text; and a request with an
  empty query has no entries at all.
\<close>

theorem search_error_may_be_empty:
  "searchHandler emptyMessageSearch (Some ''revenue table'') (Some ''run-1'') 10 =
     SearchOk ''revenue table''
       [\<lparr>sr_method = ''basic'', sr_passages = [''basic: revenue table''], sr_error = None\<rparr>,
        \<lparr>sr_method = ''vision'', sr_passages = [], sr_error = Some []\<rparr>,
        \<lparr>sr_method = ''landing-ai'', sr_passages = [''landing-ai: revenue table''],
           sr_error = None\<rparr>] \<and>
   searchHandler emptyMessageSearch (Some []) (Some ''run-1'') 10 =
     BadRequest ''Missing query or runId''"
  by (simp add: searchHandler_def searchOne_def emptyMessageSearch_def 
      Let_def)

theorem search_isolation_witness:
  "searchHandler exampleSearch (Some ''revenue table'') (Some ''run-1'') 10 =
     SearchOk ''revenue table''
       [\<lparr>sr_method = ''basic'', sr_passages = [''basic: revenue table''], sr_error = None\<rparr>,
        \<lparr>sr_method = ''vision'', sr_passages = [], sr_error = Some ''file not indexed''\<rparr>,
        \<lparr>sr_method = ''landing-ai'', sr_passages = [''landing-ai: revenue table''],
         sr_error = None\<rparr>] \<and>
   searchHandler exampleSearch None (Some ''run-1'') 10 = BadRequest ''Missing query or runId'' \<and>
   searchHandler exampleSearch (Some ''revenue table'') (Some []) 10 =
     BadRequest ''Missing query or runId''"
proof -
  have "\<exists>r1 r2 r3.
        searchHandler exampleSearch (Some ''revenue table'') (Some ''run-1'') 10 =
          SearchOk ''revenue table'' [r1, r2, r3] \<and>
        sr_method r1 = ''basic'' \<and> sr_method r2 = ''vision'' \<and> sr_method r3 = ''landing-ai'' \<and>
        map sr_method [r1, r2, r3] = map mc_name METHODS \<and>
        (\<forall>r \<in> {r1, r2, r3}.
           (\<forall>found. exampleSearch ''revenue table'' ''run-1'' (sr_method r) 10 = Inr found \<longrightarrow>
              sr_passages r = found \<and> sr_error r = None) \<and>
           (\<forall>message. exampleSearch ''revenue table'' ''run-1'' (sr_method r) 10 =
                Inl (Error message) \<longrightarrow>
              sr_passages r = [] \<and> sr_error r = Some message) \<and>
           (\<forall>text. exampleSearch ''revenue table'' ''run-1'' (sr_method r) 10 =
                Inl (Thrown text) \<longrightarrow>
              sr_passages r = [] \<and> sr_error r = Some ''Search failed''))"
    using search_isolation [of "Some ''revenue table''" "''revenue table''" "Some ''run-1''"
        "''run-1''" exampleSearch 10, THEN conjunct1]
    by simp
  then obtain r1 r2 r3 where
    h: "searchHandler exampleSearch (Some ''revenue table'') (Some ''run-1'') 10 =
          SearchOk ''revenue table'' [r1, r2, r3]"
    and m: "sr_method r1 = ''basic''" "sr_method r2 = ''vision''" "sr_method r3 = ''landing-ai''"
    and configured: "map sr_method [r1, r2, r3] = map mc_name METHODS"
    and each: "\<forall>r\<in>{r1, r2, r3}.
        (\<forall>found. exampleSearch ''revenue table'' ''run-1'' (sr_method r) 10 = Inr found \<longrightarrow>
           sr_passages r = found \<and> sr_error r = None) \<and>
        (\<forall>message. exampleSearch ''revenue table'' ''run-1'' (sr_method r) 10 =
             Inl (Error message) \<longrightarrow>
           sr_passages r = [] \<and> sr_error r = Some message) \<and>
        (\<forall>text. exampleSearch ''revenue table'' ''run-1'' (sr_method r) 10 =
             Inl (Thrown text) \<longrightarrow>
           sr_passages r = [] \<and> sr_error r = Some ''Search failed'')"
    by (elim exE conjE)
  from each m have
    "sr_passages r1 = [''basic: revenue table''] \<and> sr_error r1 = None"
    "sr_passages r2 = [] \<and> sr_error r2 = Some ''file not indexed''"
    "sr_passages r3 = [''landing-ai: revenue table''] \<and> sr_error r3 = None"
    by (simp_all add: exampleSearch_def)
  with m have
    "r1 = \<lparr>sr_method = ''basic'', sr_passages = [''basic: revenue table''], sr_error = None\<rparr>"
    "r2 = \<lparr>sr_method = ''vision'', sr_passages = [], sr_error = Some ''file not indexed''\<rparr>"
    "r3 = \<lparr>sr_method = ''landing-ai'', sr_passages = [''landing-ai: revenue table''],
           sr_error = None\<rparr>"
    by simp_all
  moreover have
    "searchHandler exampleSearch None (Some ''run-1'') 10 = BadRequest ''Missing query or runId''"
    using search_isolation [of None _ "Some ''run-1''" _ exampleSearch 10, THEN conjunct2]
    by simp
  moreover have
    "searchHandler exampleSearch (Some ''revenue table'') (Some []) 10 =
       BadRequest ''Missing query or runId''"
    using search_isolation [of "Some ''revenue table''" _ "Some []" _ exampleSearch 10,
        THEN conjunct2]
    by simp
  ultimately show ?thesis
    using h by simp
qed

end
